theory Spec2Isabelle
  imports Complex_Main
begin

section \<open>JavaScript numbers and metric values\<close>

text \<open>
  The report scripts read metric files written as JSON. A numeric field of such a file is
  a number, is \<^verbatim>\<open>null\<close>, or is missing (reading it gives \<^verbatim>\<open>undefined\<close>); arithmetic on a
  missing field gives \<^verbatim>\<open>NaN\<close>. Numbers are modelled as reals: the rounding of IEEE doubles
  is not modelled.
\<close>

datatype jsv = Undefined | Null | NaN | Num real

text \<open>
  What is thrown: a SyntaxError, a TypeError, the rejection of a call to the outside with
  its message, or the end of the process by a rejection that nothing handles.
\<close>

datatype exn = SyntaxError | TypeError | Rejection string | UnhandledRejection exn

text \<open>ToBoolean: \<^verbatim>\<open>undefined\<close>, \<^verbatim>\<open>null\<close>, \<^verbatim>\<open>NaN\<close> and \<^verbatim>\<open>0\<close> are falsy.\<close>

fun truthy :: "jsv \<Rightarrow> bool" where
  "truthy Undefined = False"
| "truthy Null = False"
| "truthy NaN = False"
| "truthy (Num x) = (x \<noteq> 0)"

text \<open>ToNumber: \<^verbatim>\<open>undefined\<close> becomes \<^verbatim>\<open>NaN\<close>, \<^verbatim>\<open>null\<close> becomes \<^verbatim>\<open>0\<close>.\<close>

fun to_number :: "jsv \<Rightarrow> jsv" where
  "to_number Undefined = NaN"
| "to_number Null = Num 0"
| "to_number NaN = NaN"
| "to_number (Num x) = Num x"

text \<open>The binary operators \<^verbatim>\<open>-\<close> and \<^verbatim>\<open>/\<close> (the divisor a non-zero constant).\<close>

definition js_minus :: "jsv \<Rightarrow> jsv \<Rightarrow> jsv" where
  "js_minus a b =
     (case (to_number a, to_number b) of
        (Num x, Num y) \<Rightarrow> Num (x - y)
      | _ \<Rightarrow> NaN)"

definition js_div :: "jsv \<Rightarrow> real \<Rightarrow> jsv" where
  "js_div a k = (case to_number a of Num x \<Rightarrow> Num (x / k) | _ \<Rightarrow> NaN)"

text \<open>
  The comparison \<^verbatim>\<open>a < t\<close> against a numeric threshold: it is false when the left side
  converts to \<^verbatim>\<open>NaN\<close>.
\<close>

definition js_lt :: "jsv \<Rightarrow> real \<Rightarrow> bool" where
  "js_lt a t = (case to_number a of Num x \<Rightarrow> x < t | _ \<Rightarrow> False)"

text \<open>
  A piece of report text that shows one metric: the marker \<^verbatim>\<open>'N/A'\<close>, the result of
  \<^verbatim>\<open>v.toFixed(d)\<close>, or the value interpolated as it is. The digits \<^verbatim>\<open>toFixed\<close> prints
  are not modelled; its result is a non-empty string and so truthy.
\<close>

datatype cell = NA | Fixed jsv nat | Shown jsv

text \<open>\<^verbatim>\<open>v?.toFixed(d) || 'N/A'\<close>: the optional call gives \<^verbatim>\<open>undefined\<close> on \<^verbatim>\<open>undefined\<close> and \<^verbatim>\<open>null\<close>.\<close>

fun toFixed_or_NA :: "jsv \<Rightarrow> nat \<Rightarrow> cell" where
  "toFixed_or_NA Undefined d = NA"
| "toFixed_or_NA Null d = NA"
| "toFixed_or_NA v d = Fixed v d"

text \<open>\<^verbatim>\<open>v || 'N/A'\<close> and \<^verbatim>\<open>v || 0\<close>.\<close>

definition or_NA :: "jsv \<Rightarrow> cell" where
  "or_NA v = (if truthy v then Shown v else NA)"

definition or_zero :: "jsv \<Rightarrow> jsv" where
  "or_zero v = (if truthy v then v else Num 0)"

text \<open>The comparison \<^verbatim>\<open>c < t\<close> of such a text with a number: \<^verbatim>\<open>'N/A'\<close> converts to \<^verbatim>\<open>NaN\<close>.\<close>

fun cell_lt :: "cell \<Rightarrow> real \<Rightarrow> bool" where
  "cell_lt NA t = False"
| "cell_lt (Shown v) t = js_lt v t"
| "cell_lt (Fixed v d) t = js_lt v t"

section \<open>In-page observers (enhanced\_perf\_test.mjs, injectPerformanceObserver)\<close>

text \<open>The entries the browser hands to the observer callbacks.\<close>

record lcp_candidate =
  lcp_startTime :: real
  lcp_size :: real

record layout_shift =
  shift_value :: real
  hadRecentInput :: bool

record interaction =
  interaction_duration :: real

record long_task =
  duration :: real
  startTime :: real

text \<open>
  The state the injected script keeps in the page: the closure variables \<^verbatim>\<open>clsValue\<close>,
  \<^verbatim>\<open>maxINP\<close>, \<^verbatim>\<open>longTasks\<close> and the globals \<^verbatim>\<open>window.__LCP\<close>, \<^verbatim>\<open>window.__CLS\<close>,
  \<^verbatim>\<open>window.__INP\<close>, \<^verbatim>\<open>window.__longTasks\<close> (\<open>None\<close> while never assigned).
\<close>

record page_vitals =
  clsValue :: real
  maxINP :: real
  longTasks_acc :: "long_task list"
  win_LCP :: "lcp_candidate option"
  win_CLS :: "real option"
  win_INP :: "real option"
  win_longTasks :: "long_task list option"

definition injected :: page_vitals where
  "injected = \<lparr>clsValue = 0, maxINP = 0, longTasks_acc = [],
     win_LCP = None, win_CLS = None, win_INP = None, win_longTasks = None\<rparr>"

text \<open>
  The largest-contentful-paint callback:
  \<^verbatim>\<open>if (entries.length > 0) window.__LCP = entries[entries.length - 1]\<close>.
\<close>

definition on_lcp :: "lcp_candidate list \<Rightarrow> page_vitals \<Rightarrow> page_vitals" where
  "on_lcp entries st =
     (if length entries > 0 then st\<lparr>win_LCP := Some (entries ! (length entries - 1))\<rparr> else st)"

text \<open>
  The layout-shift callback:
  \<^verbatim>\<open>for (entry of entries) if (!entry.hadRecentInput) clsValue += entry.value;\<close>
  \<^verbatim>\<open>window.__CLS = clsValue\<close>.
\<close>

fun cls_loop :: "real \<Rightarrow> layout_shift list \<Rightarrow> real" where
  "cls_loop v [] = v"
| "cls_loop v (entry # rest) =
     cls_loop (if \<not> hadRecentInput entry then v + shift_value entry else v) rest"

definition on_layout_shift :: "layout_shift list \<Rightarrow> page_vitals \<Rightarrow> page_vitals" where
  "on_layout_shift entries st =
     (let v = cls_loop (clsValue st) entries in st\<lparr>clsValue := v, win_CLS := Some v\<rparr>)"

text \<open>The interaction callback: \<^verbatim>\<open>maxINP = Math.max(maxINP, entry.duration)\<close>.\<close>

fun inp_loop :: "real \<Rightarrow> interaction list \<Rightarrow> real" where
  "inp_loop m [] = m"
| "inp_loop m (entry # rest) = inp_loop (max m (interaction_duration entry)) rest"

definition on_interaction :: "interaction list \<Rightarrow> page_vitals \<Rightarrow> page_vitals" where
  "on_interaction entries st =
     (let m = inp_loop (maxINP st) entries in st\<lparr>maxINP := m, win_INP := Some m\<rparr>)"

text \<open>The long-task callback pushes every entry and publishes the array.\<close>

definition on_longtask :: "long_task list \<Rightarrow> page_vitals \<Rightarrow> page_vitals" where
  "on_longtask entries st =
     (let ts = longTasks_acc st @ entries in st\<lparr>longTasks_acc := ts, win_longTasks := Some ts\<rparr>)"

text \<open>
  What the browser delivers between the injection and the sampling of the globals: a
  sequence of callback invocations, each with its batch of entries.
\<close>

datatype delivery =
    LcpBatch "lcp_candidate list"
  | ShiftBatch "layout_shift list"
  | InteractionBatch "interaction list"
  | LongTaskBatch "long_task list"

fun deliver :: "delivery \<Rightarrow> page_vitals \<Rightarrow> page_vitals" where
  "deliver (LcpBatch es) st = on_lcp es st"
| "deliver (ShiftBatch es) st = on_layout_shift es st"
| "deliver (InteractionBatch es) st = on_interaction es st"
| "deliver (LongTaskBatch es) st = on_longtask es st"

fun observe :: "delivery list \<Rightarrow> page_vitals \<Rightarrow> page_vitals" where
  "observe [] st = st"
| "observe (d # ds) st = observe ds (deliver d st)"

text \<open>The entries of one kind among the deliveries, in the order observed.\<close>

fun shifts_of :: "delivery list \<Rightarrow> layout_shift list" where
  "shifts_of [] = []"
| "shifts_of (ShiftBatch es # ds) = es @ shifts_of ds"
| "shifts_of (d # ds) = shifts_of ds"

fun candidates_of :: "delivery list \<Rightarrow> lcp_candidate list" where
  "candidates_of [] = []"
| "candidates_of (LcpBatch es # ds) = es @ candidates_of ds"
| "candidates_of (d # ds) = candidates_of ds"

text \<open>The deliveries with every layout shift flagged \<^verbatim>\<open>hadRecentInput\<close> removed.\<close>

fun without_recent_input :: "delivery \<Rightarrow> delivery" where
  "without_recent_input (ShiftBatch es) = ShiftBatch (filter (\<lambda>e. \<not> hadRecentInput e) es)"
| "without_recent_input d = d"

section \<open>Metric files and the report scripts\<close>

text \<open>
  A metrics file (\<^verbatim>\<open><step>.metrics.json\<close>) as the report scripts read it. \<open>lcp\<close> is \<open>None\<close>
  when the file has no \<^verbatim>\<open>lcp\<close> object, else the value of its \<^verbatim>\<open>duration\<close>;
  \<open>navigationTiming\<close> and \<open>longTasks\<close> are \<open>None\<close> when missing or \<^verbatim>\<open>null\<close>.
\<close>

record nav_timing =
  responseStart :: jsv
  requestStart :: jsv

record metrics =
  lcp :: "jsv option"
  cls :: jsv
  inp :: jsv
  navigationTiming :: "nav_timing option"
  longTasks :: "long_task list option"

text \<open>
  \<^verbatim>\<open>longTasks.reduce((sum, task) => sum + Math.max(0, task.duration - 50), 0)\<close>:
  the same expression in the callback of generateHtmlReport (enhanced\_perf\_test.mjs), in
  generateReport (markdown\_report.mjs) and in analyzeTraceMetrics
  (generate\_enhanced\_report.mjs).
\<close>

definition tbt_reduce :: "long_task list \<Rightarrow> real" where
  "tbt_reduce tasks = foldl (\<lambda>sum task. sum + max 0 (duration task - 50)) 0 tasks"

text \<open>\<^verbatim>\<open>metrics.lcp?.duration\<close>, read by both report scripts.\<close>

definition lcp_duration :: "metrics \<Rightarrow> jsv" where
  "lcp_duration m = (case lcp m of None \<Rightarrow> Undefined | Some d \<Rightarrow> d)"

subsection \<open>generateHtmlReport (enhanced\_perf\_test.mjs)\<close>

text \<open>
  The function reads and parses the report and then evaluates its template literal, whose
  first interpolation is \<^verbatim>\<open>await Promise.all(reportData.map(async entry => ...)).join('\n')\<close>.
  The member access binds tighter than \<^verbatim>\<open>await\<close>: \<^verbatim>\<open>join\<close> is looked up on the promise that
  \<^verbatim>\<open>Promise.all\<close> returns, where it is undefined, and calling it throws a TypeError. So the
  function rejects on every report, before any HTML is built or written. Its argument here
  is the outcome of reading and parsing the report: an error, or the metrics of the
  entries.
\<close>

fun generateHtmlReport :: "exn + metrics list \<Rightarrow> exn + unit" where
  "generateHtmlReport (Inl e) = Inl e"
| "generateHtmlReport (Inr reportData) = Inl TypeError"

text \<open>
  The callbacks that \<^verbatim>\<open>map\<close> has started still run, one per entry, and compute the locals
  below; the strings they return are never used.

  \<^verbatim>\<open>const ttfb = metrics.navigationTiming ?\<close>
  \<^verbatim>\<open>  metrics.navigationTiming.responseStart - metrics.navigationTiming.requestStart : null\<close>.
\<close>

definition html_ttfb :: "metrics \<Rightarrow> jsv" where
  "html_ttfb m =
     (case navigationTiming m of
        Some nt \<Rightarrow> js_minus (responseStart nt) (requestStart nt)
      | None \<Rightarrow> Null)"

text \<open>\<^verbatim>\<open>const longTasks = metrics.longTasks || []\<close> and the reduce over it.\<close>

definition html_tbt :: "metrics \<Rightarrow> real" where
  "html_tbt m = tbt_reduce (case longTasks m of None \<Rightarrow> [] | Some ts \<Rightarrow> ts)"

subsection \<open>generateReport (markdown\_report.mjs)\<close>

text \<open>
  The lines of the "Core Web Vitals" block of one step. The TTFB line is written only
  \<^verbatim>\<open>if (metrics.navigationTiming)\<close>, the blocking-time lines only
  \<^verbatim>\<open>if (metrics.longTasks?.length > 0)\<close>; \<open>None\<close> is a line that is not written.
\<close>

record md_vitals =
  md_LCP :: cell
  md_CLS :: cell
  md_INP :: cell
  md_TTFB :: "cell option"
  md_TBT :: "cell option"
  md_long_tasks_count :: "nat option"

definition md_ttfb :: "metrics \<Rightarrow> jsv option" where
  "md_ttfb m =
     (case navigationTiming m of
        Some nt \<Rightarrow> Some (js_minus (responseStart nt) (requestStart nt))
      | None \<Rightarrow> None)"

definition md_tbt :: "metrics \<Rightarrow> real option" where
  "md_tbt m =
     (case longTasks m of
        Some ts \<Rightarrow> (if length ts > 0 then Some (tbt_reduce ts) else None)
      | None \<Rightarrow> None)"

definition generateReport_entry :: "metrics \<Rightarrow> md_vitals" where
  "generateReport_entry m =
     \<lparr>md_LCP = (if truthy (lcp_duration m) then Fixed (js_div (lcp_duration m) 1000) 2 else NA),
      md_CLS = toFixed_or_NA (cls m) 3,
      md_INP = toFixed_or_NA (inp m) 2,
      md_TTFB = map_option (\<lambda>ttfb. Fixed ttfb 2) (md_ttfb m),
      md_TBT = map_option (\<lambda>tbt. Fixed (Num tbt) 2) (md_tbt m),
      md_long_tasks_count =
        (case longTasks m of
           Some ts \<Rightarrow> (if length ts > 0 then Some (length ts) else None)
         | None \<Rightarrow> None)\<rparr>"

subsection \<open>analyzeTraceMetrics (generate\_enhanced\_report.mjs)\<close>

text \<open>
  The blocking-time issue: \<^verbatim>\<open>const longTasks = metrics.longTasks || []\<close>, and when the list
  is not empty and its blocking time exceeds 200 an issue that shows the time.
\<close>

definition analyze_tbt_issue :: "metrics \<Rightarrow> cell option" where
  "analyze_tbt_issue m =
     (let tasks = (case longTasks m of None \<Rightarrow> [] | Some ts \<Rightarrow> ts) in
      if length tasks > 0 then
        (let totalBlockingTime = tbt_reduce tasks in
         if totalBlockingTime > 200 then Some (Fixed (Num totalBlockingTime) 2) else None)
      else None)"

subsection \<open>generateComprehensiveReport (generate\_mcp\_report.mjs)\<close>

text \<open>
  The payload of one step, \<^verbatim>\<open>entry.metrics?.result?.payload || {}\<close>: every field is a number
  or missing.
\<close>

record payload =
  LargestContentfulPaint :: jsv
  CumulativeLayoutShift :: jsv
  InteractionToNextPaint :: jsv
  TimeToFirstByte :: jsv
  TotalBlockingTime :: jsv

definition empty_payload :: payload where
  "empty_payload = \<lparr>LargestContentfulPaint = Undefined, CumulativeLayoutShift = Undefined,
     InteractionToNextPaint = Undefined, TimeToFirstByte = Undefined,
     TotalBlockingTime = Undefined\<rparr>"

text \<open>One row of the "Core Web Vitals Overview" table.\<close>

record overview_row =
  row_lcp :: cell
  row_cls :: cell
  row_inp :: cell
  row_ttfb :: cell
  row_tbt :: cell
  row_status_good :: bool

definition overview_row_of :: "payload option \<Rightarrow> overview_row" where
  "overview_row_of p =
     (let metrics = (case p of None \<Rightarrow> empty_payload | Some q \<Rightarrow> q);
          lcp = or_NA (LargestContentfulPaint metrics);
          cls = or_zero (CumulativeLayoutShift metrics);
          inp = or_NA (InteractionToNextPaint metrics);
          ttfb = or_NA (TimeToFirstByte metrics);
          tbt = or_NA (TotalBlockingTime metrics)
      in \<lparr>row_lcp = lcp, row_cls = Shown cls, row_inp = inp, row_ttfb = ttfb, row_tbt = tbt,
          row_status_good = (cell_lt lcp 2500 \<and> js_lt cls 0.1)\<rparr>)"

section \<open>The browser as an environment\<close>

text \<open>
  The scenario scripts drive a browser through Puppeteer. Every call they make to the
  outside (the page, the tracer, the file system, the timer, the clock) is a \<open>call\<close>; the
  environment decides whether it rejects, how long it takes and what it answers, as a
  function of everything that happened before. A run of a script appends one entry per
  call to the history, so that orderings and times of calls can be stated. Console output
  is not modelled, and the base URL is taken to be one that \<^verbatim>\<open>new URL(path, BASE)\<close> can
  resolve a path against.
\<close>

text \<open>
  The targets of \<^verbatim>\<open>page.goto\<close>: \<^verbatim>\<open>'about:blank'\<close>, the base URL, and
  \<^verbatim>\<open>new URL(path, BASE).href\<close>. The \<^verbatim>\<open>waitUntil\<close> option of a navigation is left out: it
  changes when the environment resolves the call, not what the script does next.
\<close>

datatype url = AboutBlank | Base | Resolved string

text \<open>The in-page functions handed to \<^verbatim>\<open>page.evaluate\<close>.\<close>

datatype script =
    ClickByText string string
  | SubmitForm
  | ClickProduct
  | ClickAddButton
  | ClickCheckoutButton
  | ReadPerformance

text \<open>
  The files written: the per-step summary \<^verbatim>\<open>${Date.now()}-${name}.txt\<close>, the final report
  \<^verbatim>\<open>final-report-${Date.now()}.txt\<close>, and the artifacts of the enhanced test.
\<close>

datatype out_file =
    SummaryFile nat string
  | FinalReportFile nat
  | TraceJson string
  | MetricsJson string
  | ReportJson

text \<open>What is written to a file.\<close>

datatype content =
    SummaryText string
  | FinalReportText "(string \<times> out_file \<times> string) list"
  | TraceBuffer string
  | MetricsDump metrics
  | ReportDump "(string \<times> out_file \<times> out_file) list"

datatype call =
    Mkdir
  | WriteFile out_file content
  | Launch
  | McpContextFrom
  | NewPage
  | SetViewport
  | EvaluateOnNewDocument
  | BrowserClose
  | Goto url
  | TracingStart "string list"
  | TracingStop
  | Evaluate script
  | QuerySelectorAll string
  | QuerySelector string
  | NodeClick nat
  | NodeSubmit nat
  | Query string
  | HandleClick nat nat
  | HandleType nat string
  | WaitForNavigation "nat option"
  | PageClick string
  | PageType string string
  | PageMetrics
  | SetTimeout nat
  | ParseRawTraceBuffer
  | GetTraceSummary

record entry =
  call :: call
  started :: nat
  finished :: nat

record world =
  history :: "entry list"
  clock :: nat

text \<open>A DOM node as the in-page functions read it.\<close>

record node =
  node_id :: nat
  textContent :: "string option"
  node_value :: "string option"

text \<open>
  The result of \<^verbatim>\<open>parseRawTraceBuffer\<close> as recordTraceAround reads it: its \<^verbatim>\<open>parsedTrace\<close>
  (opaque here) and its \<^verbatim>\<open>error\<close>, either of which may be missing.
\<close>

record parsed =
  parsedTrace :: "string option"
  error :: "string option"

record env =
  rejects :: "entry list \<Rightarrow> call \<Rightarrow> string option"
  takes :: "entry list \<Rightarrow> call \<Rightarrow> nat"
  nodes :: "entry list \<Rightarrow> string \<Rightarrow> node list"
  handles :: "entry list \<Rightarrow> string \<Rightarrow> nat option"
  trace_buffer :: "entry list \<Rightarrow> string"
  parse_result :: "entry list \<Rightarrow> string \<Rightarrow> parsed option"
  trace_summary :: "entry list \<Rightarrow> parsed \<Rightarrow> string"
  date_now :: "entry list \<Rightarrow> nat"
  page_metrics :: "entry list \<Rightarrow> metrics"

type_synonym 'a io = "world \<Rightarrow> (exn + 'a) \<times> world"

definition return :: "'a \<Rightarrow> 'a io" where
  "return x w = (Inr x, w)"

definition bind :: "'a io \<Rightarrow> ('a \<Rightarrow> 'b io) \<Rightarrow> 'b io" where
  "bind m k w = (case m w of (Inl e, w') \<Rightarrow> (Inl e, w') | (Inr x, w') \<Rightarrow> k x w')"

text \<open>
  \<^verbatim>\<open>try { m } catch (e) { h e }\<close>, and \<^verbatim>\<open>m.catch(h)\<close> on an awaited promise. The end of the
  process is not an exception: no handler sees it.
\<close>

definition catch :: "'a io \<Rightarrow> (exn \<Rightarrow> 'a io) \<Rightarrow> 'a io" where
  "catch m h w =
     (case m w of
        (Inl (UnhandledRejection e), w') \<Rightarrow> (Inl (UnhandledRejection e), w')
      | (Inl e, w') \<Rightarrow> h e w'
      | (Inr x, w') \<Rightarrow> (Inr x, w'))"

text \<open>
  \<^verbatim>\<open>try { m } finally { f }\<close> where \<open>f\<close> cannot throw. When the process ends inside \<open>m\<close>,
  \<open>f\<close> does not run.
\<close>

definition finally_do :: "'a io \<Rightarrow> unit io \<Rightarrow> 'a io" where
  "finally_do m f w =
     (case m w of
        (Inl (UnhandledRejection e), w') \<Rightarrow> (Inl (UnhandledRejection e), w')
      | (r, w') \<Rightarrow> (r, snd (f w')))"

text \<open>
  A timer of \<open>ms\<close> milliseconds fires after at least \<open>ms\<close>; any other call takes what the
  environment says.
\<close>

definition duration_of :: "env \<Rightarrow> entry list \<Rightarrow> call \<Rightarrow> nat" where
  "duration_of E h c = (case c of SetTimeout ms \<Rightarrow> ms + takes E h c | _ \<Rightarrow> takes E h c)"

text \<open>
  One awaited call that answers \<open>answer\<close> unless the environment rejects it, with a
  message.
\<close>

definition request :: "env \<Rightarrow> call \<Rightarrow> (entry list \<Rightarrow> 'a) \<Rightarrow> 'a io" where
  "request E c answer w =
     (let h = history w;
          t = clock w + duration_of E h c;
          w' = \<lparr>history = h @ [\<lparr>call = c, started = clock w, finished = t\<rparr>], clock = t\<rparr>
      in (case rejects E h c of Some msg \<Rightarrow> Inl (Rejection msg) | None \<Rightarrow> Inr (answer h), w'))"

definition perform :: "env \<Rightarrow> call \<Rightarrow> unit io" where
  "perform E c = request E c (\<lambda>h. ())"

text \<open>\<^verbatim>\<open>Date.now()\<close>: it reads the clock of the host and cannot throw.\<close>

definition now :: "env \<Rightarrow> nat io" where
  "now E w = (Inr (date_now E (history w)), w)"

text \<open>\<^verbatim>\<open>sleep(ms)\<close>, that is \<^verbatim>\<open>new Promise(r => setTimeout(r, ms))\<close>: it cannot reject.\<close>

definition sleep :: "env \<Rightarrow> nat \<Rightarrow> unit io" where
  "sleep E ms w =
     (let h = history w; t = clock w + duration_of E h (SetTimeout ms)
      in (Inr (), \<lparr>history = h @ [\<lparr>call = SetTimeout ms, started = clock w, finished = t\<rparr>],
                   clock = t\<rparr>))"

section \<open>Strings\<close>

text \<open>
  Strings are lists of ASCII characters. \<^verbatim>\<open>trim\<close> and \<^verbatim>\<open>toLowerCase\<close> are modelled on
  ASCII: white space is the characters 9 to 13 and 32, and only \<^verbatim>\<open>A\<close> to \<^verbatim>\<open>Z\<close> change case.
\<close>

definition is_space :: "char \<Rightarrow> bool" where
  "is_space c = (of_char c = (32::nat) \<or> (9 \<le> (of_char c :: nat) \<and> (of_char c :: nat) \<le> 13))"

definition lower_char :: "char \<Rightarrow> char" where
  "lower_char c =
     (if 65 \<le> (of_char c :: nat) \<and> (of_char c :: nat) \<le> 90 then char_of (of_char c + (32::nat)) else c)"

definition toLowerCase :: "string \<Rightarrow> string" where
  "toLowerCase s = map lower_char s"

definition trim :: "string \<Rightarrow> string" where
  "trim s = rev (dropWhile is_space (rev (dropWhile is_space s)))"

text \<open>\<^verbatim>\<open>s.split(',')\<close>.\<close>

fun split_on :: "char \<Rightarrow> string \<Rightarrow> string list" where
  "split_on c [] = [[]]"
| "split_on c (x # xs) =
     (if x = c then [] # split_on c xs
      else (case split_on c xs of [] \<Rightarrow> [[x]] | y # ys \<Rightarrow> (x # y) # ys))"

text \<open>\<^verbatim>\<open>s.includes(t)\<close>.\<close>

fun js_includes :: "string \<Rightarrow> string \<Rightarrow> bool" where
  "js_includes [] t = (t = [])"
| "js_includes (x # xs) t = (take (length t) (x # xs) = t \<or> js_includes xs t)"

text \<open>\<^verbatim>\<open>name.replace(/\s+/g, '_')\<close>: every run of white space becomes one underscore.\<close>

fun replace_runs :: "bool \<Rightarrow> string \<Rightarrow> string" where
  "replace_runs in_run [] = []"
| "replace_runs in_run (c # cs) =
     (if is_space c then (if in_run then replace_runs True cs else CHR ''_'' # replace_runs True cs)
      else c # replace_runs False cs)"

definition replace_whitespace :: "string \<Rightarrow> string" where
  "replace_whitespace name = replace_runs False name"

section \<open>full\_scenario\_perf.mjs\<close>

definition ensureOut :: "env \<Rightarrow> unit io" where
  "ensureOut E = perform E Mkdir"

definition save :: "env \<Rightarrow> out_file \<Rightarrow> content \<Rightarrow> out_file io" where
  "save E name text = bind (perform E (WriteFile name text)) (\<lambda>_. return name)"

subsection \<open>clickByText\<close>

text \<open>\<^verbatim>\<open>(n.textContent || '').trim().toLowerCase().includes(txt.toLowerCase())\<close>.\<close>

definition text_matches :: "node \<Rightarrow> string \<Rightarrow> bool" where
  "text_matches n txt =
     js_includes (toLowerCase (trim (case textContent n of None \<Rightarrow> [] | Some s \<Rightarrow> s)))
       (toLowerCase txt)"

definition querySelectorAll :: "env \<Rightarrow> string \<Rightarrow> node list io" where
  "querySelectorAll E sel = request E (QuerySelectorAll sel) (\<lambda>h. nodes E h sel)"

text \<open>\<^verbatim>\<open>document.querySelector(sel)\<close>: the first element of the matches, or \<^verbatim>\<open>null\<close>.\<close>

definition querySelector :: "env \<Rightarrow> string \<Rightarrow> node option io" where
  "querySelector E sel =
     request E (QuerySelector sel) (\<lambda>h. case nodes E h sel of [] \<Rightarrow> None | n # _ \<Rightarrow> Some n)"

text \<open>The inner loop \<^verbatim>\<open>for (const n of nodes)\<close>: click the first node whose text matches.\<close>

fun nodes_loop :: "env \<Rightarrow> string \<Rightarrow> node list \<Rightarrow> bool io" where
  "nodes_loop E txt [] = return False"
| "nodes_loop E txt (n # ns) =
     (if text_matches n txt then bind (perform E (NodeClick (node_id n))) (\<lambda>_. return True)
      else nodes_loop E txt ns)"

text \<open>The outer loop \<^verbatim>\<open>for (const sel of sels)\<close>; \<^verbatim>\<open>return false\<close> after it.\<close>

fun sels_loop :: "env \<Rightarrow> string \<Rightarrow> string list \<Rightarrow> bool io" where
  "sels_loop E txt [] = return False"
| "sels_loop E txt (sel # sels) =
     bind (querySelectorAll E sel) (\<lambda>ns.
     bind (nodes_loop E txt ns) (\<lambda>found.
     if found then return True else sels_loop E txt sels))"

text \<open>\<^verbatim>\<open>page.evaluate(fn, ...)\<close>: the call itself may reject; then \<open>fn\<close> runs in the page.\<close>

definition evaluate :: "env \<Rightarrow> script \<Rightarrow> 'a io \<Rightarrow> 'a io" where
  "evaluate E s body = bind (perform E (Evaluate s)) (\<lambda>_. body)"

definition clickByText :: "env \<Rightarrow> string \<Rightarrow> string \<Rightarrow> bool io" where
  "clickByText E selectorList text =
     evaluate E (ClickByText selectorList text)
       (sels_loop E text (split_on CHR '','' selectorList))"

subsection \<open>typeIfExists\<close>

definition typeIfExists :: "env \<Rightarrow> string \<Rightarrow> string \<Rightarrow> bool io" where
  "typeIfExists E selector val =
     catch
       (bind (request E (Query selector) (\<lambda>h. handles E h selector)) (\<lambda>el.
        case el of
          None \<Rightarrow> return False
        | Some h \<Rightarrow>
            bind (perform E (HandleClick h 3)) (\<lambda>_.
            bind (perform E (HandleType h val)) (\<lambda>_.
            return True))))
       (\<lambda>e. return False)"

subsection \<open>recordTraceAround\<close>

definition categories :: "string list" where
  "categories =
     [''-*'', ''blink.console'', ''blink.user_timing'', ''devtools.timeline'',
      ''disabled-by-default-devtools.screenshot'', ''disabled-by-default-devtools.timeline'',
      ''disabled-by-default-devtools.timeline.invalidationTracking'',
      ''disabled-by-default-devtools.timeline.frame'',
      ''disabled-by-default-devtools.timeline.stack'',
      ''disabled-by-default-v8.cpu_profiler'', ''disabled-by-default-v8.cpu_profiler.hires'',
      ''latencyInfo'', ''loading'', ''disabled-by-default-lighthouse'', ''v8.execute'', ''v8'']"

record opts =
  reload :: bool
  autoStop :: bool

definition default_opts :: opts where
  "default_opts = \<lparr>reload = True, autoStop = True\<rparr>"

record trace_result =
  tr_parsed :: "parsed option"
  tr_summary :: string
  tr_file :: out_file

text \<open>
  \<^verbatim>\<open>parsed && parsed.parsedTrace ? getTraceSummary(parsed)\<close>
  \<^verbatim>\<open>  : `Error parsing trace: ${parsed?.error ?? 'unknown'}`\<close>.
\<close>

definition summary_of :: "env \<Rightarrow> parsed option \<Rightarrow> string io" where
  "summary_of E p =
     (case p of
        None \<Rightarrow> return (''Error parsing trace: '' @ ''unknown'')
      | Some q \<Rightarrow>
          (case parsedTrace q of
             Some t \<Rightarrow> request E GetTraceSummary (\<lambda>h. trace_summary E h q)
           | None \<Rightarrow>
               return (''Error parsing trace: '' @ (case error q of Some e \<Rightarrow> e | None \<Rightarrow> ''unknown''))))"

text \<open>
  The statements before \<^verbatim>\<open>await actionFn()\<close>: the navigation to \<^verbatim>\<open>about:blank\<close>, whose
  failure is swallowed, and the start of the trace.
\<close>

definition before_action :: "env \<Rightarrow> opts \<Rightarrow> unit io" where
  "before_action E opts =
     bind (if reload opts then catch (perform E (Goto AboutBlank)) (\<lambda>e. return ()) else return ())
       (\<lambda>_. perform E (TracingStart categories))"

text \<open>
  The statements after \<^verbatim>\<open>await actionFn()\<close>: the settle delay, the stop of the trace, the
  decoding, the summary and its file.
\<close>

definition after_action :: "env \<Rightarrow> string \<Rightarrow> trace_result io" where
  "after_action E name =
     bind (sleep E 2500) (\<lambda>_.
     bind (request E TracingStop (\<lambda>h. trace_buffer E h)) (\<lambda>buffer.
     bind (request E ParseRawTraceBuffer (\<lambda>h. parse_result E h buffer)) (\<lambda>parsed.
     bind (summary_of E parsed) (\<lambda>summary.
     bind (now E) (\<lambda>t.
     bind (save E (SummaryFile t (replace_whitespace name)) (SummaryText summary)) (\<lambda>file.
     return \<lparr>tr_parsed = parsed, tr_summary = summary, tr_file = file\<rparr>))))))"

definition recordTraceAround :: "env \<Rightarrow> string \<Rightarrow> unit io \<Rightarrow> opts \<Rightarrow> trace_result io" where
  "recordTraceAround E name actionFn opts =
     bind (before_action E opts) (\<lambda>_.
     bind actionFn (\<lambda>_.
     after_action E name))"

subsection \<open>The nine actions of run\<close>

text \<open>
  The value of \<^verbatim>\<open>clicked\<close> in the steps that write \<^verbatim>\<open>await a() || b()\<close>: a boolean, or the
  promise that \<^verbatim>\<open>b()\<close> returned, which is truthy. \<^verbatim>\<open>b()\<close> is always a call of clickByText; its
  promise is kept with the arguments of the call, with the rejection of \<^verbatim>\<open>page.evaluate\<close> if
  the environment rejects it, and with the time at which the page has received the call.
\<close>

datatype flag = Flag bool | PendingClick string string "string option" nat

fun flag_truthy :: "flag \<Rightarrow> bool" where
  "flag_truthy (Flag b) = b"
| "flag_truthy (PendingClick selectorList text rejected received) = True"

text \<open>The rejection of \<^verbatim>\<open>page.evaluate\<close> that a pending promise carries, if any.\<close>

fun pending_rejection :: "flag \<Rightarrow> string option" where
  "pending_rejection (Flag b) = None"
| "pending_rejection (PendingClick selectorList text rejected received) = rejected"

text \<open>
  \<^verbatim>\<open>clickByText(page, selectorList, text)\<close> without \<^verbatim>\<open>await\<close>: \<^verbatim>\<open>page.evaluate\<close> is issued and
  its promise comes back at once. The script does not wait, so its clock does not advance,
  and the page function has not run yet.
\<close>

definition clickByText_not_awaited :: "env \<Rightarrow> string \<Rightarrow> string \<Rightarrow> flag io" where
  "clickByText_not_awaited E selectorList text w =
     (let h = history w;
          c = Evaluate (ClickByText selectorList text);
          t = clock w + duration_of E h c
      in (Inr (PendingClick selectorList text (rejects E h c) t),
          w\<lparr>history := h @ [\<lparr>call = c, started = clock w, finished = t\<rparr>]\<rparr>))"

text \<open>
  \<^verbatim>\<open>a || b()\<close> where \<open>a\<close> is the awaited first result and \<^verbatim>\<open>b()\<close> is a call that
  returns a promise which is not awaited. A third operand is never evaluated.
\<close>

definition or_promise :: "bool \<Rightarrow> flag io \<Rightarrow> flag io" where
  "or_promise a b = (if a then return (Flag True) else b)"

text \<open>
  The first \<^verbatim>\<open>await\<close> after the chain, here of \<open>m\<close>. A promise that the chain left pending
  settles while the script waits there: \<open>m\<close> is issued first, then the page function of the
  pending click runs in the page, no earlier than the page has received the call; the
  script goes on when \<open>m\<close> is done, however long the page function takes. Nothing handles
  the pending promise: if \<^verbatim>\<open>page.evaluate\<close> or the page function rejects, Node reports an
  unhandled rejection and ends the process with status 1, and the script makes no further
  call.
\<close>

definition await_while_pending :: "env \<Rightarrow> flag \<Rightarrow> 'a io \<Rightarrow> 'a io" where
  "await_while_pending E clicked m w =
     (case clicked of
        Flag b \<Rightarrow> m w
      | PendingClick selectorList text rejected received \<Rightarrow>
          (let r = m w;
               p = (case rejected of
                      Some msg \<Rightarrow> (Inl (Rejection msg), snd r)
                    | None \<Rightarrow>
                        sels_loop E text (split_on CHR '','' selectorList)
                          ((snd r)\<lparr>clock := max (clock w) received\<rparr>));
               w' = (snd p)\<lparr>clock := clock (snd r)\<rparr>
           in (case fst p of
                 Inl e \<Rightarrow> (Inl (UnhandledRejection e), w')
               | Inr found \<Rightarrow> (fst r, w'))))"

text \<open>\<^verbatim>\<open>page.goto(url, ...).catch(() => {})\<close> and \<^verbatim>\<open>page.waitForNavigation(...).catch(() => {})\<close>.\<close>

definition goto_caught :: "env \<Rightarrow> url \<Rightarrow> unit io" where
  "goto_caught E u = catch (perform E (Goto u)) (\<lambda>e. return ())"

definition waitForNavigation_caught :: "env \<Rightarrow> nat \<Rightarrow> unit io" where
  "waitForNavigation_caught E timeout = catch (perform E (WaitForNavigation (Some timeout))) (\<lambda>e. return ())"

definition home_action :: "env \<Rightarrow> unit io" where
  "home_action E = perform E (Goto Base)"

definition sign_in_action :: "env \<Rightarrow> unit io" where
  "sign_in_action E =
     bind (clickByText E ''a,button'' ''Sign In'') (\<lambda>clicked.
     bind (if \<not> clicked then goto_caught E (Resolved ''/actions/Account.action?signonForm='')
           else return ()) (\<lambda>_.
     sleep E 1000))"

text \<open>The in-page function \<^verbatim>\<open>const f = document.querySelector('form'); if (f) f.submit()\<close>.\<close>

definition submit_form :: "env \<Rightarrow> unit io" where
  "submit_form E =
     bind (querySelector E ''form'') (\<lambda>f.
     case f of None \<Rightarrow> return () | Some n \<Rightarrow> perform E (NodeSubmit (node_id n)))"

definition login_action :: "env \<Rightarrow> unit io" where
  \<open>login_action E =
     bind (typeIfExists E ''input[name="username"], input[id="username"], input[name="userid"]'' ''j2ee'') (\<lambda>typedUser.
     bind (typeIfExists E ''input[name="password"], input[id="password"]'' ''j2ee'') (\<lambda>typedPass.
     bind (clickByText E ''input[type="submit"], button'' ''Login'') (\<lambda>c1.
     bind (if c1 then return True
           else bind (clickByText E ''input[type="submit"], button'' ''Sign In'') (\<lambda>c2.
                if c2 then return True else clickByText E ''button'' ''Submit'')) (\<lambda>submitClicked.
     bind (if \<not> submitClicked then evaluate E SubmitForm (submit_form E) else return ()) (\<lambda>_.
     bind (waitForNavigation_caught E 10000) (\<lambda>_.
     sleep E 1000))))))\<close>

definition fish_action :: "env \<Rightarrow> unit io" where
  "fish_action E =
     bind (clickByText E ''a,button'' ''Fish'') (\<lambda>clicked.
     bind (if \<not> clicked then goto_caught E (Resolved ''/actions/Catalog.action?categoryId=FISH'')
           else return ()) (\<lambda>_.
     bind (waitForNavigation_caught E 8000) (\<lambda>_.
     sleep E 1000)))"

text \<open>
  The in-page function of the product step: the first product link, else the first item
  link, else the first anchor whose text matches \<^verbatim>\<open>/Product|Item|View/\<close>.
\<close>

definition product_text_matches :: "node \<Rightarrow> bool" where
  "product_text_matches a =
     (let t = (case textContent a of None \<Rightarrow> [] | Some s \<Rightarrow> s)
      in js_includes t ''Product'' \<or> js_includes t ''Item'' \<or> js_includes t ''View'')"

definition click_product :: "env \<Rightarrow> bool io" where
  \<open>click_product E =
     bind (querySelector E ''a[href*="Product.action"]'') (\<lambda>e1.
     bind (case e1 of Some n \<Rightarrow> return (Some n) | None \<Rightarrow> querySelector E ''a[href*="ViewItem"]'') (\<lambda>el.
     case el of
       Some n \<Rightarrow> bind (perform E (NodeClick (node_id n))) (\<lambda>_. return True)
     | None \<Rightarrow>
         bind (querySelectorAll E ''a'') (\<lambda>all.
         case find product_text_matches all of
           Some a \<Rightarrow> bind (perform E (NodeClick (node_id a))) (\<lambda>_. return True)
         | None \<Rightarrow> return False)))\<close>

definition product_action :: "env \<Rightarrow> unit io" where
  "product_action E =
     bind (evaluate E ClickProduct (click_product E)) (\<lambda>clicked.
     bind (if \<not> clicked then
             bind (request E (Query ''a'') (\<lambda>h. handles E h ''a'')) (\<lambda>el.
             case el of None \<Rightarrow> return () | Some h \<Rightarrow> perform E (HandleClick h 1))
           else return ()) (\<lambda>_.
     bind (waitForNavigation_caught E 8000) (\<lambda>_.
     sleep E 1000)))"

definition click_add_button :: "env \<Rightarrow> unit io" where
  \<open>click_add_button E =
     bind (querySelector E ''input[type="submit"][value*="Add"]'') (\<lambda>b1.
     bind (case b1 of Some n \<Rightarrow> return (Some n) | None \<Rightarrow> querySelector E ''button'') (\<lambda>btn.
     case btn of None \<Rightarrow> return () | Some n \<Rightarrow> perform E (NodeClick (node_id n))))\<close>

definition add_to_cart_action :: "env \<Rightarrow> unit io" where
  "add_to_cart_action E =
     bind (clickByText E ''button,input, a'' ''Add to Cart'') (\<lambda>added.
     bind (if \<not> added then evaluate E ClickAddButton (click_add_button E) else return ()) (\<lambda>_.
     bind (waitForNavigation_caught E 8000) (\<lambda>_.
     sleep E 1000)))"

definition view_cart_action :: "env \<Rightarrow> unit io" where
  "view_cart_action E =
     bind (clickByText E ''a,button'' ''Cart'') (\<lambda>c1.
     bind (or_promise c1 (clickByText_not_awaited E ''a,button'' ''View Cart'')) (\<lambda>clicked.
     bind (if \<not> flag_truthy clicked then goto_caught E (Resolved ''/actions/Cart.action'')
           else return ()) (\<lambda>_.
     bind (await_while_pending E clicked (waitForNavigation_caught E 8000)) (\<lambda>_.
     sleep E 1000))))"

text \<open>
  The in-page function of the checkout step: the first button or input whose
  \<^verbatim>\<open>textContent || value || ''\<close> matches \<^verbatim>\<open>/Proceed|Checkout|Confirm/i\<close>.
\<close>

definition checkout_text_matches :: "node \<Rightarrow> bool" where
  "checkout_text_matches n =
     (let t = (case textContent n of
                 Some (c # s) \<Rightarrow> c # s
               | _ \<Rightarrow> (case node_value n of Some v \<Rightarrow> v | None \<Rightarrow> []));
          l = toLowerCase t
      in js_includes l ''proceed'' \<or> js_includes l ''checkout'' \<or> js_includes l ''confirm'')"

definition click_checkout_button :: "env \<Rightarrow> unit io" where
  "click_checkout_button E =
     bind (querySelectorAll E ''button,input'') (\<lambda>all.
     case find checkout_text_matches all of
       None \<Rightarrow> return ()
     | Some btn \<Rightarrow> perform E (NodeClick (node_id btn)))"

definition checkout_action :: "env \<Rightarrow> unit io" where
  "checkout_action E =
     bind (clickByText E ''a,button'' ''Proceed to Checkout'') (\<lambda>c1.
     bind (or_promise c1 (clickByText_not_awaited E ''a,button'' ''Proceed'')) (\<lambda>clicked.
     bind (if \<not> flag_truthy clicked then evaluate E ClickCheckoutButton (click_checkout_button E)
           else return ()) (\<lambda>_.
     bind (await_while_pending E clicked (waitForNavigation_caught E 8000)) (\<lambda>_.
     sleep E 1000))))"

definition logout_action :: "env \<Rightarrow> unit io" where
  "logout_action E =
     bind (clickByText E ''a,button'' ''Sign Out'') (\<lambda>c1.
     bind (or_promise c1 (clickByText_not_awaited E ''a,button'' ''Logout'')) (\<lambda>clicked.
     bind (if \<not> flag_truthy clicked then goto_caught E (Resolved ''/actions/Account.action?signoff='')
           else return ()) (\<lambda>_.
     bind (await_while_pending E clicked (waitForNavigation_caught E 8000)) (\<lambda>_.
     sleep E 1000))))"

subsection \<open>run\<close>

record step_result =
  step :: string
  result :: trace_result

text \<open>\<^verbatim>\<open>report.push({ step: s, ...r })\<close>.\<close>

definition push :: "step_result list \<Rightarrow> string \<Rightarrow> trace_result \<Rightarrow> step_result list" where
  "push report s r = report @ [\<lparr>step = s, result = r\<rparr>]"

text \<open>The block of the final text for one entry: its step, its trace file and its summary.\<close>

definition block_of :: "step_result \<Rightarrow> string \<times> out_file \<times> string" where
  "block_of r = (step r, tr_file (result r), tr_summary (result r))"

text \<open>
  The body of the \<^verbatim>\<open>try\<close> block of \<^verbatim>\<open>run\<close>. It returns the \<^verbatim>\<open>report\<close> array, a local of
  the source, so that the array can be spoken about.
\<close>

definition scenario :: "env \<Rightarrow> step_result list io" where
  "scenario E =
     bind (perform E McpContextFrom) (\<lambda>_.
     bind (perform E NewPage) (\<lambda>_.
     bind (recordTraceAround E ''home'' (home_action E) default_opts) (\<lambda>home.
     bind (recordTraceAround E ''sign_in'' (sign_in_action E) default_opts) (\<lambda>signIn.
     bind (recordTraceAround E ''login'' (login_action E) default_opts) (\<lambda>login.
     bind (recordTraceAround E ''fish_category'' (fish_action E) default_opts) (\<lambda>fish.
     bind (recordTraceAround E ''product_click'' (product_action E) default_opts) (\<lambda>product.
     bind (recordTraceAround E ''add_to_cart'' (add_to_cart_action E) default_opts) (\<lambda>addToCart.
     bind (recordTraceAround E ''view_cart'' (view_cart_action E) default_opts) (\<lambda>viewCart.
     bind (recordTraceAround E ''proceed_to_checkout'' (checkout_action E) default_opts) (\<lambda>checkout.
     bind (recordTraceAround E ''logout'' (logout_action E) default_opts) (\<lambda>logout.
     let report =
           push (push (push (push (push (push (push (push (push []
             ''home'' home) ''sign_in'' signIn) ''login'' login) ''fish'' fish)
             ''product'' product) ''add_to_cart'' addToCart) ''view_cart'' viewCart)
             ''checkout'' checkout) ''logout'' logout
     in
     bind (now E) (\<lambda>t.
     bind (save E (FinalReportFile t) (FinalReportText (map block_of report))) (\<lambda>reportFile.
     return report)))))))))))))"

text \<open>
  \<^verbatim>\<open>run\<close>: the output directory, the launch, then the scenario under
  \<^verbatim>\<open>finally { try { await browser.close() } catch (e) {} }\<close>. A rejection of \<open>run\<close> is
  what the last lines of the script turn into \<^verbatim>\<open>process.exit(1)\<close>; an unhandled rejection
  ends the process with the same status before the \<^verbatim>\<open>finally\<close> block can run.
\<close>

definition run :: "env \<Rightarrow> step_result list io" where
  "run E =
     bind (ensureOut E) (\<lambda>_.
     bind (perform E Launch) (\<lambda>_.
     finally_do (scenario E) (catch (perform E BrowserClose) (\<lambda>e. return ()))))"

section \<open>enhanced\_perf\_test.mjs\<close>

text \<open>
  \<^verbatim>\<open>Promise.all([a, b])\<close> and \<^verbatim>\<open>Promise.race([a, b])\<close> over two calls: both are issued at
  the same instant, the second seeing the first in the history. \<open>all\<close> resolves when both
  have resolved and rejects with the first rejection; \<open>race\<close> settles as the call that
  finishes first (the first of the array on a tie). The other call runs on unobserved;
  \<open>all\<close> and \<open>race\<close> have attached their handlers to it, so a later rejection of it is
  not an unhandled one.
\<close>

definition both_issued ::
  "env \<Rightarrow> call \<Rightarrow> call \<Rightarrow> world \<Rightarrow> (string option \<times> nat) \<times> (string option \<times> nat) \<times> entry list" where
  "both_issued E a b w =
     (let h = history w;
          ta = clock w + duration_of E h a;
          ea = \<lparr>call = a, started = clock w, finished = ta\<rparr>;
          tb = clock w + duration_of E (h @ [ea]) b;
          eb = \<lparr>call = b, started = clock w, finished = tb\<rparr>
      in ((rejects E h a, ta), (rejects E (h @ [ea]) b, tb), h @ [ea, eb]))"

definition promise_all :: "env \<Rightarrow> call \<Rightarrow> call \<Rightarrow> unit io" where
  "promise_all E a b w =
     (case both_issued E a b w of
        ((None, ta), (None, tb), h) \<Rightarrow> (Inr (), \<lparr>history = h, clock = max ta tb\<rparr>)
      | ((Some e, ta), (None, tb), h) \<Rightarrow> (Inl (Rejection e), \<lparr>history = h, clock = ta\<rparr>)
      | ((None, ta), (Some e, tb), h) \<Rightarrow> (Inl (Rejection e), \<lparr>history = h, clock = tb\<rparr>)
      | ((Some e1, ta), (Some e2, tb), h) \<Rightarrow>
          (if ta \<le> tb then (Inl (Rejection e1), \<lparr>history = h, clock = ta\<rparr>)
           else (Inl (Rejection e2), \<lparr>history = h, clock = tb\<rparr>)))"

definition promise_race :: "env \<Rightarrow> call \<Rightarrow> call \<Rightarrow> unit io" where
  "promise_race E a b w =
     (case both_issued E a b w of
        ((ra, ta), (rb, tb), h) \<Rightarrow>
          (if ta \<le> tb
           then (case ra of None \<Rightarrow> Inr () | Some e \<Rightarrow> Inl (Rejection e), \<lparr>history = h, clock = ta\<rparr>)
           else (case rb of None \<Rightarrow> Inr () | Some e \<Rightarrow> Inl (Rejection e), \<lparr>history = h, clock = tb\<rparr>)))"

definition categories_enhanced :: "string list" where
  "categories_enhanced =
     [''-*'', ''disabled-by-default-devtools.timeline'',
      ''disabled-by-default-devtools.timeline.frame'', ''devtools.timeline'',
      ''blink.user_timing'', ''loading'', ''latencyInfo'', ''disabled-by-default-lighthouse'',
      ''v8.execute'', ''disabled-by-default-v8.cpu_profiler'',
      ''disabled-by-default-v8.cpu_profiler.hires'']"

text \<open>
  getPerformanceMetrics: the in-page read of the navigation entry and of the globals the
  observers publish, then \<^verbatim>\<open>page.metrics()\<close>. Of the object it returns, the fields the
  reports read are kept.
\<close>

definition getPerformanceMetrics :: "env \<Rightarrow> metrics io" where
  "getPerformanceMetrics E =
     bind (request E (Evaluate ReadPerformance) (\<lambda>h. page_metrics E h)) (\<lambda>metrics.
     bind (perform E PageMetrics) (\<lambda>chromeMetrics.
     return metrics))"

record traced =
  path :: out_file
  metricsPath :: out_file
  traced_metrics :: metrics

definition before_action_enhanced :: "env \<Rightarrow> opts \<Rightarrow> unit io" where
  "before_action_enhanced E opts =
     bind (if reload opts then catch (perform E (Goto AboutBlank)) (\<lambda>e. return ()) else return ())
       (\<lambda>_. perform E (TracingStart categories_enhanced))"

text \<open>
  The statements after \<^verbatim>\<open>await actionFn()\<close>: the settle delay, the sampling of the live
  metrics and their file, the stop of the trace and its file.
\<close>

definition after_action_enhanced :: "env \<Rightarrow> string \<Rightarrow> traced io" where
  "after_action_enhanced E name =
     bind (sleep E 2500) (\<lambda>_.
     bind (getPerformanceMetrics E) (\<lambda>metrics.
     bind (perform E (WriteFile (MetricsJson name) (MetricsDump metrics))) (\<lambda>_.
     bind (request E TracingStop (\<lambda>h. trace_buffer E h)) (\<lambda>buffer.
     bind (perform E (WriteFile (TraceJson name) (TraceBuffer buffer))) (\<lambda>_.
     return \<lparr>path = TraceJson name, metricsPath = MetricsJson name, traced_metrics = metrics\<rparr>)))))"

definition recordTraceAround_enhanced :: "env \<Rightarrow> string \<Rightarrow> unit io \<Rightarrow> opts \<Rightarrow> traced io" where
  "recordTraceAround_enhanced E name actionFn opts =
     bind (before_action_enhanced E opts) (\<lambda>_.
     bind actionFn (\<lambda>_.
     after_action_enhanced E name))"

subsection \<open>The nine actions of main\<close>

definition homepage_action :: "env \<Rightarrow> unit io" where
  "homepage_action E = bind (perform E (Goto Base)) (\<lambda>_. sleep E 1000)"

text \<open>
  The steps of the shape
  \<^verbatim>\<open>try { await Promise.race([page.click(sel), page.goto(url)]); await sleep(1000) }\<close>
  \<^verbatim>\<open>catch (e) { await page.goto(url); await sleep(1000) }\<close>.
\<close>

definition race_or_goto :: "env \<Rightarrow> string \<Rightarrow> url \<Rightarrow> unit io" where
  "race_or_goto E sel u =
     catch (bind (promise_race E (PageClick sel) (Goto u)) (\<lambda>_. sleep E 1000))
           (\<lambda>e. bind (perform E (Goto u)) (\<lambda>_. sleep E 1000))"

text \<open>
  \<^verbatim>\<open>try { await Promise.all([page.waitForNavigation(...), page.click(sel)]); await sleep(1000) }\<close>
  with \<^verbatim>\<open>catch (e) { console.warn(...) }\<close>, or with the direct navigation as the handler.
\<close>

definition click_and_wait :: "env \<Rightarrow> string \<Rightarrow> unit io" where
  "click_and_wait E sel =
     bind (promise_all E (WaitForNavigation None) (PageClick sel)) (\<lambda>_. sleep E 1000)"

definition click_or_warn :: "env \<Rightarrow> string \<Rightarrow> unit io" where
  "click_or_warn E sel = catch (click_and_wait E sel) (\<lambda>e. return ())"

definition click_or_goto :: "env \<Rightarrow> string \<Rightarrow> url \<Rightarrow> unit io" where
  "click_or_goto E sel u =
     catch (click_and_wait E sel) (\<lambda>e. bind (perform E (Goto u)) (\<lambda>_. sleep E 1000))"

definition sign_in_enhanced :: "env \<Rightarrow> unit io" where
  \<open>sign_in_enhanced E =
     race_or_goto E ''a:has-text("Sign In")'' (Resolved ''/actions/Account.action?signonForm='')\<close>

definition login_enhanced :: "env \<Rightarrow> unit io" where
  \<open>login_enhanced E =
     catch
       (bind (perform E (PageType ''input[name="username"]'' ''j2ee'')) (\<lambda>_.
        bind (perform E (PageType ''input[name="password"]'' ''j2ee'')) (\<lambda>_.
        click_and_wait E ''input[type="submit"]'')))
       (\<lambda>e. return ())\<close>

definition fish_enhanced :: "env \<Rightarrow> unit io" where
  \<open>fish_enhanced E =
     race_or_goto E ''a:has-text("Fish")'' (Resolved ''/actions/Catalog.action?categoryId=FISH'')\<close>

definition product_enhanced :: "env \<Rightarrow> unit io" where
  \<open>product_enhanced E =
     catch
       (bind (request E (Query ''a[href*="Product.action"]'')
                (\<lambda>h. handles E h ''a[href*="Product.action"]'')) (\<lambda>productLink.
        bind (case productLink of
                Some h \<Rightarrow> promise_all E (WaitForNavigation None) (HandleClick h 1)
              | None \<Rightarrow> return ()) (\<lambda>_.
        sleep E 1000)))
       (\<lambda>e. return ())\<close>

definition add_to_cart_enhanced :: "env \<Rightarrow> unit io" where
  \<open>add_to_cart_enhanced E = click_or_warn E ''a:has-text("Add to Cart")''\<close>

definition view_cart_enhanced :: "env \<Rightarrow> unit io" where
  \<open>view_cart_enhanced E = click_or_goto E ''a:has-text("Cart")'' (Resolved ''/actions/Cart.action'')\<close>

definition checkout_enhanced :: "env \<Rightarrow> unit io" where
  \<open>checkout_enhanced E = click_or_warn E ''a:has-text("Proceed to Checkout")''\<close>

definition logout_enhanced :: "env \<Rightarrow> unit io" where
  \<open>logout_enhanced E =
     click_or_goto E ''a:has-text("Sign Out")'' (Resolved ''/actions/Account.action?signoff='')\<close>

subsection \<open>main\<close>

record step_traced =
  step_name :: string
  traced :: traced

definition push_traced :: "step_traced list \<Rightarrow> string \<Rightarrow> traced \<Rightarrow> step_traced list" where
  "push_traced report s r = report @ [\<lparr>step_name = s, traced = r\<rparr>]"

definition dump_of :: "step_traced \<Rightarrow> string \<times> out_file \<times> out_file" where
  "dump_of r = (step_name r, path (traced r), metricsPath (traced r))"

text \<open>
  \<^verbatim>\<open>main\<close>: everything is inside one \<^verbatim>\<open>try\<close> whose handler logs the error and calls
  \<^verbatim>\<open>process.exit(1)\<close>; a rejection of \<open>main\<close> stands for that exit. It returns the
  \<^verbatim>\<open>report\<close> array that it also writes to \<^verbatim>\<open>report.json\<close>.
\<close>

definition main :: "env \<Rightarrow> step_traced list io" where
  "main E =
     bind (ensureOut E) (\<lambda>_.
     bind (perform E Launch) (\<lambda>_.
     bind (perform E NewPage) (\<lambda>_.
     bind (perform E SetViewport) (\<lambda>_.
     bind (perform E EvaluateOnNewDocument) (\<lambda>_.
     bind (recordTraceAround_enhanced E ''homepage'' (homepage_action E) \<lparr>reload = True, autoStop = False\<rparr>) (\<lambda>home.
     bind (recordTraceAround_enhanced E ''sign_in'' (sign_in_enhanced E) default_opts) (\<lambda>signIn.
     bind (recordTraceAround_enhanced E ''login'' (login_enhanced E) default_opts) (\<lambda>login.
     bind (recordTraceAround_enhanced E ''fish_category'' (fish_enhanced E) default_opts) (\<lambda>fish.
     bind (recordTraceAround_enhanced E ''product_details'' (product_enhanced E) default_opts) (\<lambda>product.
     bind (recordTraceAround_enhanced E ''add_to_cart'' (add_to_cart_enhanced E) default_opts) (\<lambda>addToCart.
     bind (recordTraceAround_enhanced E ''view_cart'' (view_cart_enhanced E) default_opts) (\<lambda>viewCart.
     bind (recordTraceAround_enhanced E ''checkout'' (checkout_enhanced E) default_opts) (\<lambda>checkout.
     bind (recordTraceAround_enhanced E ''logout'' (logout_enhanced E) default_opts) (\<lambda>logout.
     let report =
           push_traced (push_traced (push_traced (push_traced (push_traced (push_traced
           (push_traced (push_traced (push_traced []
             ''homepage'' home) ''sign_in'' signIn) ''login'' login) ''fish'' fish)
             ''product'' product) ''add_to_cart'' addToCart) ''view_cart'' viewCart)
             ''checkout'' checkout) ''logout'' logout
     in
     bind (perform E (WriteFile ReportJson (ReportDump (map dump_of report)))) (\<lambda>_.
     bind (perform E BrowserClose) (\<lambda>_.
     return report))))))))))))))))"

section \<open>parseTraceMetrics (the Word report generator)\<close>

text \<open>
  \<^verbatim>\<open>JSON.parse(await fs.readFile(tracePath, 'utf-8'))\<close> has one of four outcomes: the file
  cannot be read; its text is not JSON (the empty text, a truncated capture, any other
  malformed text), and \<^verbatim>\<open>JSON.parse\<close> throws a SyntaxError; it is a JSON array; it is some
  other JSON value (an object such as \<^verbatim>\<open>{"traceEvents": [...]}\<close>, a number, a string, a
  boolean, \<^verbatim>\<open>null\<close>).

  An element of the array is \<^verbatim>\<open>null\<close> or a value on which properties can be read. Of an
  event the function reads \<^verbatim>\<open>name\<close> (compared with \<^verbatim>\<open>===\<close> to a string, so only a string
  name counts), \<^verbatim>\<open>ts\<close> and \<^verbatim>\<open>args?.data?.encodedDataLength\<close>.
\<close>

record trace_event =
  ev_name :: "string option"
  ev_ts :: jsv
  ev_encodedDataLength :: jsv

datatype trace_elem = ElemNull | Elem trace_event

datatype trace_file = Unreadable exn | NotJson | JsonArray "trace_elem list" | JsonOther

record trace_metrics =
  loadTime :: jsv
  firstPaint :: jsv
  firstContentfulPaint :: jsv
  networkRequests :: nat
  networkBytes :: real

definition bind_e :: "exn + 'a \<Rightarrow> ('a \<Rightarrow> exn + 'b) \<Rightarrow> exn + 'b" where
  "bind_e m k = (case m of Inl e \<Rightarrow> Inl e | Inr x \<Rightarrow> k x)"

text \<open>
  \<^verbatim>\<open>traceData.find(e => e.name === name)?.ts\<close>: reading \<^verbatim>\<open>name\<close> of a \<^verbatim>\<open>null\<close> element
  throws a TypeError; no match gives \<^verbatim>\<open>undefined\<close>.
\<close>

fun find_ts :: "string \<Rightarrow> trace_elem list \<Rightarrow> exn + jsv" where
  "find_ts name [] = Inr Undefined"
| "find_ts name (ElemNull # es) = Inl TypeError"
| "find_ts name (Elem e # es) = (if ev_name e = Some name then Inr (ev_ts e) else find_ts name es)"

text \<open>\<^verbatim>\<open>traceData.filter(e => e.name === name)\<close>.\<close>

fun filter_named :: "string \<Rightarrow> trace_elem list \<Rightarrow> exn + trace_event list" where
  "filter_named name [] = Inr []"
| "filter_named name (ElemNull # es) = Inl TypeError"
| "filter_named name (Elem e # es) =
     bind_e (filter_named name es) (\<lambda>rest. Inr (if ev_name e = Some name then e # rest else rest))"

text \<open>\<^verbatim>\<open>a && b ? (a - b) / 1000 : null\<close>.\<close>

definition span_ms :: "jsv \<Rightarrow> jsv \<Rightarrow> jsv" where
  "span_ms a b = (if truthy a \<and> truthy b then js_div (js_minus a b) 1000 else Null)"

text \<open>\<^verbatim>\<open>.reduce((sum, e) => sum + (e.args?.data?.encodedDataLength || 0), 0)\<close>.\<close>

definition sum_encoded :: "trace_event list \<Rightarrow> real" where
  "sum_encoded es =
     foldl (\<lambda>sum e. sum + (case or_zero (ev_encodedDataLength e) of Num x \<Rightarrow> x | _ \<Rightarrow> 0)) 0 es"

text \<open>
  The body of the function after the parse. On a value that is not an array
  \<^verbatim>\<open>traceData.find\<close> is not a function, and the call throws a TypeError.
\<close>

definition metrics_of_events :: "trace_elem list \<Rightarrow> exn + trace_metrics" where
  "metrics_of_events traceData =
     bind_e (find_ts ''navigationStart'' traceData) (\<lambda>navigationStart.
     bind_e (find_ts ''loadEventEnd'' traceData) (\<lambda>loadEventEnd.
     bind_e (find_ts ''firstPaint'' traceData) (\<lambda>firstPaint.
     bind_e (find_ts ''firstContentfulPaint'' traceData) (\<lambda>firstContentfulPaint.
     bind_e (filter_named ''ResourceSendRequest'' traceData) (\<lambda>sent.
     bind_e (filter_named ''ResourceReceiveResponse'' traceData) (\<lambda>received.
     Inr \<lparr>loadTime = span_ms loadEventEnd navigationStart,
          firstPaint = span_ms firstPaint navigationStart,
          firstContentfulPaint = span_ms firstContentfulPaint navigationStart,
          networkRequests = length sent,
          networkBytes = sum_encoded received / 1024 / 1024\<rparr>))))))"

fun parseTraceMetrics :: "trace_file \<Rightarrow> exn + trace_metrics" where
  "parseTraceMetrics (Unreadable e) = Inl e"
| "parseTraceMetrics NotJson = Inl SyntaxError"
| "parseTraceMetrics JsonOther = Inl TypeError"
| "parseTraceMetrics (JsonArray traceData) = metrics_of_events traceData"

text \<open>
  generateReport of the same script: \<^verbatim>\<open>for (const entry of reportData)\<close> parses each
  entry's trace with no \<^verbatim>\<open>try\<close> around it, so the first failure ends the function.
\<close>

fun parse_all :: "trace_file list \<Rightarrow> exn + trace_metrics list" where
  "parse_all [] = Inr []"
| "parse_all (f # fs) =
     bind_e (parseTraceMetrics f) (\<lambda>m. bind_e (parse_all fs) (\<lambda>ms. Inr (m # ms)))"

section \<open>Environments used in the examples\<close>

definition no_metrics :: metrics where
  "no_metrics = \<lparr>lcp = None, cls = Undefined, inp = Undefined, navigationTiming = None,
     longTasks = None\<rparr>"

text \<open>
  A site on which no selector matches anything and every call resolves at once, the
  decoder answering with a failure value.
\<close>

definition bare_site :: env where
  "bare_site =
     \<lparr>rejects = (\<lambda>h c. None), takes = (\<lambda>h c. 0), nodes = (\<lambda>h sel. []), handles = (\<lambda>h sel. None),
      trace_buffer = (\<lambda>h. []),
      parse_result = (\<lambda>h b. Some \<lparr>parsedTrace = None, error = Some ''empty''\<rparr>),
      trace_summary = (\<lambda>h p. []), date_now = (\<lambda>h. 0), page_metrics = (\<lambda>h. no_metrics)\<rparr>"

text \<open>
  The same site when only the base URL and \<^verbatim>\<open>about:blank\<close> can be reached: every other
  navigation and every wait for a navigation rejects.
\<close>

definition timed_out :: exn where
  "timed_out = Rejection ''timeout''"

definition failing_site :: env where
  "failing_site =
     bare_site\<lparr>rejects := (\<lambda>h c. case c of
        Goto (Resolved p) \<Rightarrow> Some ''timeout''
      | WaitForNavigation t \<Rightarrow> Some ''timeout''
      | _ \<Rightarrow> None)\<rparr>"

text \<open>
  The same site for the enhanced test: every click and every typing by selector rejects,
  and so does every wait for a navigation, while the navigations succeed.
\<close>

definition unclickable_site :: env where
  "unclickable_site =
     bare_site\<lparr>rejects := (\<lambda>h c. case c of
        PageClick sel \<Rightarrow> Some ''timeout''
      | PageType sel v \<Rightarrow> Some ''timeout''
      | WaitForNavigation t \<Rightarrow> Some ''timeout''
      | _ \<Rightarrow> None)\<rparr>"

text \<open>A site whose base URL cannot be loaded.\<close>

definition unreachable_site :: env where
  "unreachable_site =
     bare_site\<lparr>rejects := (\<lambda>h c. case c of Goto Base \<Rightarrow> Some ''timeout'' | _ \<Rightarrow> None)\<rparr>"

text \<open>
  A site whose page is gone when the second click of the view\_cart step reaches it:
  \<^verbatim>\<open>page.evaluate\<close> rejects for the text "View Cart".
\<close>

definition detached_site :: env where
  "detached_site =
     bare_site\<lparr>rejects := (\<lambda>h c.
        if c = Evaluate (ClickByText ''a,button'' ''View Cart'') then Some ''detached'' else None)\<rparr>"

definition start :: world where
  "start = \<lparr>history = [], clock = 0\<rparr>"

text \<open>A page with a navigation bar: three links, the second one labelled "Sign In".\<close>

definition store_front :: env where
  "store_front =
     bare_site\<lparr>nodes := (\<lambda>h sel.
        if sel = ''a'' then
          [\<lparr>node_id = 11, textContent = Some ''Enter the Store'', node_value = None\<rparr>,
           \<lparr>node_id = 12, textContent = Some ''  Sign In '', node_value = None\<rparr>,
           \<lparr>node_id = 13, textContent = Some ''sign in here'', node_value = None\<rparr>]
        else [])\<rparr>"

section \<open>Vocabulary of the properties\<close>

text \<open>
  \<open>emits P m\<close>: whatever the start, \<open>m\<close> only appends to the history, every call it
  appends satisfies \<open>P\<close> and is issued no earlier than the start, and the clock does not
  go back.
\<close>

definition emits :: "(call \<Rightarrow> bool) \<Rightarrow> 'a io \<Rightarrow> bool" where
  "emits P m =
     (\<forall>w. \<exists>es. history (snd (m w)) = history w @ es
            \<and> list_all (\<lambda>e. P (call e) \<and> clock w \<le> started e) es
            \<and> clock w \<le> clock (snd (m w)))"

text \<open>\<open>resolves m\<close>: whatever the start, \<open>m\<close> returns a value and does not reject.\<close>

definition resolves :: "'a io \<Rightarrow> bool" where
  "resolves m = (\<forall>w. \<exists>x. fst (m w) = Inr x)"

text \<open>
  \<open>no_exit m\<close>: whatever the start, \<open>m\<close> does not end the process, so that a handler
  around it sees every rejection of it.
\<close>

definition no_exit :: "'a io \<Rightarrow> bool" where
  "no_exit m = (\<forall>w e. fst (m w) \<noteq> Inl (UnhandledRejection e))"

text \<open>An environment that rejects no call outside \<open>T\<close>.\<close>

definition rejects_only :: "(call \<Rightarrow> bool) \<Rightarrow> env \<Rightarrow> bool" where
  "rejects_only T E = (\<forall>h c. rejects E h c = None \<or> T c)"

text \<open>
  The calls of full\_scenario\_perf.mjs whose rejection the script swallows wherever it
  makes them: the reset to \<^verbatim>\<open>about:blank\<close>, the fallback navigations, the waits for a
  navigation, what typeIfExists does (its query for the element, the triple click and the
  typing), and the closing of the browser. The one element query outside typeIfExists,
  \<^verbatim>\<open>page.$('a')\<close> in the product step, is not guarded.
\<close>

fun tolerated :: "call \<Rightarrow> bool" where
  "tolerated (Goto AboutBlank) = True"
| "tolerated (Goto (Resolved p)) = True"
| "tolerated (WaitForNavigation t) = True"
| "tolerated (Query sel) = (sel \<noteq> ''a'')"
| "tolerated (HandleClick h n) = (n = 3)"
| "tolerated (HandleType h v) = True"
| "tolerated BrowserClose = True"
| "tolerated c = False"

text \<open>
  The calls of enhanced\_perf\_test.mjs whose rejection the script swallows wherever it
  makes them: the reset to \<^verbatim>\<open>about:blank\<close> and, inside the \<^verbatim>\<open>try\<close> blocks of the actions,
  clicks, typing, element queries and waits for a navigation.
\<close>

fun tolerated_enhanced :: "call \<Rightarrow> bool" where
  "tolerated_enhanced (Goto AboutBlank) = True"
| "tolerated_enhanced (WaitForNavigation t) = True"
| "tolerated_enhanced (PageClick sel) = True"
| "tolerated_enhanced (PageType sel v) = True"
| "tolerated_enhanced (Query sel) = True"
| "tolerated_enhanced (HandleClick h n) = True"
| "tolerated_enhanced c = False"

text \<open>
  The calls that sample: the stop of the trace, which ends the capture the summary is
  computed from, and the two reads of getPerformanceMetrics.
\<close>

fun sampling :: "call \<Rightarrow> bool" where
  "sampling TracingStop = True"
| "sampling (Evaluate ReadPerformance) = True"
| "sampling PageMetrics = True"
| "sampling c = False"

text \<open>The calls by which an action of either script acts on the page.\<close>

fun acts_on_page :: "call \<Rightarrow> bool" where
  "acts_on_page (Evaluate s) = (s \<noteq> ReadPerformance)"
| "acts_on_page (QuerySelectorAll sel) = True"
| "acts_on_page (QuerySelector sel) = True"
| "acts_on_page (NodeClick n) = True"
| "acts_on_page (NodeSubmit n) = True"
| "acts_on_page (Query sel) = True"
| "acts_on_page (HandleClick h n) = True"
| "acts_on_page (HandleType h v) = True"
| "acts_on_page (PageClick sel) = True"
| "acts_on_page (PageType sel v) = True"
| "acts_on_page (WaitForNavigation t) = True"
| "acts_on_page (SetTimeout ms) = True"
| "acts_on_page (Goto u) = True"
| "acts_on_page c = False"

fun is_goto :: "call \<Rightarrow> bool" where
  "is_goto (Goto u) = True"
| "is_goto c = False"

text \<open>The entries a run has appended to the history of its start.\<close>

definition appended :: "world \<Rightarrow> world \<Rightarrow> entry list" where
  "appended w w' = drop (length (history w)) (history w')"

text \<open>The fixed scenario: the step names of the two scripts, in order.\<close>

definition scenario_steps :: "string list" where
  "scenario_steps = [''home'', ''sign_in'', ''login'', ''fish'', ''product'', ''add_to_cart'',
     ''view_cart'', ''checkout'', ''logout'']"

definition scenario_steps_enhanced :: "string list" where
  "scenario_steps_enhanced = [''homepage'', ''sign_in'', ''login'', ''fish'', ''product'',
     ''add_to_cart'', ''view_cart'', ''checkout'', ''logout'']"

section \<open>Total Blocking Time\<close>

lemma foldl_tbt_shift:
  "foldl (\<lambda>sum task. sum + max 0 (duration task - 50)) a ts
     = a + foldl (\<lambda>sum task. sum + max 0 (duration task - 50)) 0 ts"
proof (induction ts arbitrary: a)
  case Nil
  show ?case by simp
next
  case (Cons t ts)
  have "foldl (\<lambda>sum task. sum + max 0 (duration task - 50)) a (t # ts)
          = foldl (\<lambda>sum task. sum + max 0 (duration task - 50)) (a + max 0 (duration t - 50)) ts"
    by simp
  also have "\<dots> = (a + max 0 (duration t - 50))
                     + foldl (\<lambda>sum task. sum + max 0 (duration task - 50)) 0 ts"
    by (rule Cons.IH)
  also have "\<dots> = a + foldl (\<lambda>sum task. sum + max 0 (duration task - 50)) (0 + max 0 (duration t - 50)) ts"
    using Cons.IH [of "0 + max 0 (duration t - 50)"] by simp
  finally show ?case by simp
qed

lemma tbt_reduce_Cons: "tbt_reduce (t # ts) = max 0 (duration t - 50) + tbt_reduce ts"
proof -
  have "tbt_reduce (t # ts)
          = foldl (\<lambda>sum task. sum + max 0 (duration task - 50)) (max 0 (duration t - 50)) ts"
    by (simp add: tbt_reduce_def)
  also have "\<dots> = max 0 (duration t - 50) + tbt_reduce ts"
    unfolding tbt_reduce_def by (rule foldl_tbt_shift)
  finally show ?thesis .
qed

lemma tbt_reduce_sum: "tbt_reduce ts = (\<Sum>t\<leftarrow>ts. max 0 (duration t - 50))"
  by (induction ts) (simp_all add: tbt_reduce_Cons, simp add: tbt_reduce_def)

text \<open>
  C3. For every list of long tasks the computed Total Blocking Time is the sum over the
  tasks of \<open>max 0 (duration - 50)\<close>: so is the reduce expression that the scripts share,
  the value computed in the callback of generateHtmlReport (a missing list counts as
  empty) and the value of the markdown report (computed for a non-empty list only). A
  single long task of 120 ms gives 70 ms.
\<close>

theorem tbt_is_sum_of_blocking_portions:
  "tbt_reduce ts = (\<Sum>t\<leftarrow>ts. max 0 (duration t - 50))
   \<and> html_tbt (m\<lparr>longTasks := Some ts\<rparr>) = (\<Sum>t\<leftarrow>ts. max 0 (duration t - 50))
   \<and> md_tbt (m\<lparr>longTasks := Some (t # ts)\<rparr>) = Some (\<Sum>t\<leftarrow>t # ts. max 0 (duration t - 50))
   \<and> tbt_reduce [\<lparr>duration = 120, startTime = s\<rparr>] = 70
   \<and> html_tbt (m\<lparr>longTasks := Some [\<lparr>duration = 120, startTime = s\<rparr>]\<rparr>) = 70
   \<and> md_tbt (m\<lparr>longTasks := Some [\<lparr>duration = 120, startTime = s\<rparr>]\<rparr>) = Some 70"
  by (simp add: tbt_reduce_sum html_tbt_def md_tbt_def)

text \<open>
  The issue analysis of generate\_enhanced\_report.mjs computes the same sum for a non-empty
  list, and shows it when it exceeds 200.
\<close>

lemma analyze_tbt_issue_shows_the_sum:
  "analyze_tbt_issue (m\<lparr>longTasks := Some (t # ts)\<rparr>)
     = (if (\<Sum>t\<leftarrow>t # ts. max 0 (duration t - 50)) > 200
        then Some (Fixed (Num (\<Sum>t\<leftarrow>t # ts. max 0 (duration t - 50))) 2) else None)"
  by (simp add: analyze_tbt_issue_def tbt_reduce_sum Let_def)

section \<open>The in-page observers\<close>

lemma cls_loop_sum:
  "cls_loop v es = v + (\<Sum>e\<leftarrow>filter (\<lambda>e. \<not> hadRecentInput e) es. shift_value e)"
  by (induction es arbitrary: v) simp_all

lemma cls_loop_filter: "cls_loop v (filter (\<lambda>e. \<not> hadRecentInput e) es) = cls_loop v es"
  by (induction es arbitrary: v) simp_all

lemma deliver_without_recent_input: "deliver (without_recent_input d) st = deliver d st"
  by (cases d) (simp_all add: on_layout_shift_def cls_loop_filter)

lemma observe_without_recent_input: "observe (map without_recent_input ds) st = observe ds st"
  by (induction ds arbitrary: st) (simp_all add: deliver_without_recent_input)

lemma clsValue_deliver:
  "clsValue (deliver d st)
     = clsValue st + (\<Sum>e\<leftarrow>filter (\<lambda>e. \<not> hadRecentInput e) (shifts_of [d]). shift_value e)"
  by (cases d)
     (simp_all add: on_lcp_def on_layout_shift_def on_interaction_def on_longtask_def
        cls_loop_sum Let_def)

lemma shifts_of_Cons: "shifts_of (d # ds) = shifts_of [d] @ shifts_of ds"
  by (cases d) simp_all

lemma clsValue_observe:
  "clsValue (observe ds st)
     = clsValue st + (\<Sum>e\<leftarrow>filter (\<lambda>e. \<not> hadRecentInput e) (shifts_of ds). shift_value e)"
proof (induction ds arbitrary: st)
  case Nil
  show ?case by simp
next
  case (Cons d ds)
  have "clsValue (observe (d # ds) st) = clsValue (observe ds (deliver d st))"
    by simp
  also have "\<dots> = clsValue (deliver d st)
      + (\<Sum>e\<leftarrow>filter (\<lambda>e. \<not> hadRecentInput e) (shifts_of ds). shift_value e)"
    by (rule Cons.IH)
  finally show ?case
    by (simp add: clsValue_deliver shifts_of_Cons [of d ds])
qed

lemma win_CLS_deliver:
  "win_CLS (deliver d st) = (case d of ShiftBatch es \<Rightarrow> Some (clsValue (deliver d st)) | _ \<Rightarrow> win_CLS st)"
  by (cases d)
     (simp_all add: on_lcp_def on_layout_shift_def on_interaction_def on_longtask_def Let_def)

lemma win_CLS_observe:
  "win_CLS st = None \<or> win_CLS st = Some (clsValue st) \<Longrightarrow>
   win_CLS (observe ds st) = None \<or> win_CLS (observe ds st) = Some (clsValue (observe ds st))"
proof (induction ds arbitrary: st)
  case Nil
  then show ?case by simp
next
  case (Cons d ds)
  have "win_CLS (deliver d st) = None \<or> win_CLS (deliver d st) = Some (clsValue (deliver d st))"
    using Cons.prems
    by (cases d)
       (simp_all add: on_lcp_def on_layout_shift_def on_interaction_def on_longtask_def Let_def)
  from Cons.IH [OF this] show ?case by simp
qed

lemma win_CLS_after_shift_batch:
  "win_CLS (observe (ds @ [ShiftBatch es]) st) = Some (clsValue (observe (ds @ [ShiftBatch es]) st))"
  by (induction ds arbitrary: st) (simp_all add: on_layout_shift_def Let_def)

text \<open>
  C5. For every sequence of deliveries, the accumulated CLS is the sum of the scores of
  exactly the layout shifts with \<^verbatim>\<open>hadRecentInput = false\<close> (the flag the browser sets on a
  shift within 500 ms of an input); \<^verbatim>\<open>window.__CLS\<close> holds that running sum from the first
  layout-shift callback on; and removing the flagged shifts from the input changes nothing
  in the state the page keeps.
\<close>

theorem cls_sums_shifts_without_recent_input:
  "clsValue (observe ds injected)
     = (\<Sum>e\<leftarrow>filter (\<lambda>e. \<not> hadRecentInput e) (shifts_of ds). shift_value e)
   \<and> win_CLS (observe (ds @ [ShiftBatch es]) injected)
     = Some (\<Sum>e\<leftarrow>filter (\<lambda>e. \<not> hadRecentInput e) (shifts_of (ds @ [ShiftBatch es])). shift_value e)
   \<and> observe (map without_recent_input ds) st = observe ds st"
proof (intro conjI)
  show a: "clsValue (observe ds injected)
     = (\<Sum>e\<leftarrow>filter (\<lambda>e. \<not> hadRecentInput e) (shifts_of ds). shift_value e)" for ds
    by (simp add: clsValue_observe injected_def)
  show "win_CLS (observe (ds @ [ShiftBatch es]) injected)
     = Some (\<Sum>e\<leftarrow>filter (\<lambda>e. \<not> hadRecentInput e) (shifts_of (ds @ [ShiftBatch es])). shift_value e)"
    by (simp only: win_CLS_after_shift_batch a)
  show "observe (map without_recent_input ds) st = observe ds st"
    by (rule observe_without_recent_input)
qed

lemma win_LCP_deliver:
  "win_LCP (deliver d st)
     = (if candidates_of [d] = [] then win_LCP st else Some (last (candidates_of [d])))"
  by (cases d)
     (simp_all add: on_lcp_def on_layout_shift_def on_interaction_def on_longtask_def Let_def
        last_conv_nth)

lemma candidates_of_Cons: "candidates_of (d # ds) = candidates_of [d] @ candidates_of ds"
  by (cases d) simp_all

lemma win_LCP_observe:
  "win_LCP (observe ds st)
     = (if candidates_of ds = [] then win_LCP st else Some (last (candidates_of ds)))"
proof (induction ds arbitrary: st)
  case Nil
  show ?case by simp
next
  case (Cons d ds)
  have "win_LCP (observe (d # ds) st) = win_LCP (observe ds (deliver d st))"
    by simp
  also have "\<dots> = (if candidates_of ds = [] then win_LCP (deliver d st)
                     else Some (last (candidates_of ds)))"
    by (rule Cons.IH)
  finally show ?case
    by (simp add: win_LCP_deliver candidates_of_Cons [of d ds])
qed

lemma last_is_largest:
  assumes "sorted_wrt (\<lambda>a b. lcp_size a < lcp_size b) cs" and "c \<in> set cs"
  shows "lcp_size c \<le> lcp_size (last cs)"
proof (cases "c = last cs")
  case True
  then show ?thesis by simp
next
  case False
  from assms(2) have ne: "cs \<noteq> []" by auto
  then have split: "cs = butlast cs @ [last cs]" by simp
  with assms(2) False have "c \<in> set (butlast cs)"
    by (metis Un_iff empty_iff empty_set set_ConsD set_append)
  moreover from assms(1) split
  have "\<forall>a\<in>set (butlast cs). lcp_size a < lcp_size (last cs)"
    by (metis list.set_intros(1) sorted_wrt_append)
  ultimately show ?thesis by force
qed

text \<open>
  C6. For every sequence of deliveries, \<^verbatim>\<open>window.__LCP\<close> at sampling time is the last
  largest-contentful-paint candidate observed so far (none when there was no candidate).
  Under the semantics of the entry stream (the browser emits a new candidate only when it
  is larger, and none after the first user input), that candidate is the largest one and
  does not come after the input.
\<close>

theorem lcp_is_last_candidate:
  "win_LCP (observe ds injected)
     = (if candidates_of ds = [] then None else Some (last (candidates_of ds)))
   \<and> (sorted_wrt (\<lambda>a b. lcp_size a < lcp_size b) (candidates_of ds) \<longrightarrow>
        (\<forall>c \<in> set (candidates_of ds).
           \<exists>r. win_LCP (observe ds injected) = Some r \<and> lcp_size c \<le> lcp_size r))
   \<and> ((\<forall>c \<in> set (candidates_of ds). lcp_startTime c < firstInput) \<longrightarrow>
        (\<forall>r. win_LCP (observe ds injected) = Some r \<longrightarrow> lcp_startTime r < firstInput))"
proof (intro conjI impI ballI allI)
  show "win_LCP (observe ds injected)
     = (if candidates_of ds = [] then None else Some (last (candidates_of ds)))"
    by (simp add: win_LCP_observe injected_def)
next
  fix c
  assume "sorted_wrt (\<lambda>a b. lcp_size a < lcp_size b) (candidates_of ds)"
    and "c \<in> set (candidates_of ds)"
  then have "lcp_size c \<le> lcp_size (last (candidates_of ds))" and "candidates_of ds \<noteq> []"
    by (auto intro: last_is_largest)
  then show "\<exists>r. win_LCP (observe ds injected) = Some r \<and> lcp_size c \<le> lcp_size r"
    by (simp add: win_LCP_observe)
next
  fix r
  assume all: "\<forall>c \<in> set (candidates_of ds). lcp_startTime c < firstInput"
    and r: "win_LCP (observe ds injected) = Some r"
  from r have "candidates_of ds \<noteq> [] \<and> r = last (candidates_of ds)"
    by (simp add: win_LCP_observe injected_def split: if_splits)
  with all show "lcp_startTime r < firstInput"
    using last_in_set by blast
qed

theorem lcp_is_last_candidate_witness:
  "win_LCP (observe [LcpBatch [\<lparr>lcp_startTime = 100, lcp_size = 10\<rparr>],
                     ShiftBatch [],
                     LcpBatch [\<lparr>lcp_startTime = 400, lcp_size = 25\<rparr>, \<lparr>lcp_startTime = 900, lcp_size = 60\<rparr>]]
             injected)
     = Some \<lparr>lcp_startTime = 900, lcp_size = 60\<rparr>
   \<and> sorted_wrt (\<lambda>a b. lcp_size a < lcp_size b)
        (candidates_of [LcpBatch [\<lparr>lcp_startTime = 100, lcp_size = 10\<rparr>],
                     ShiftBatch [],
                     LcpBatch [\<lparr>lcp_startTime = 400, lcp_size = 25\<rparr>, \<lparr>lcp_startTime = 900, lcp_size = 60\<rparr>]])
   \<and> (\<exists>r. win_LCP (observe [LcpBatch [\<lparr>lcp_startTime = 100, lcp_size = 10\<rparr>],
                     ShiftBatch [],
                     LcpBatch [\<lparr>lcp_startTime = 400, lcp_size = 25\<rparr>, \<lparr>lcp_startTime = 900, lcp_size = 60\<rparr>]]
             injected) = Some r \<and> (25::real) \<le> lcp_size r \<and> lcp_startTime r < 1000)"
  using lcp_is_last_candidate
    [of "[LcpBatch [\<lparr>lcp_startTime = 100, lcp_size = 10\<rparr>],
          ShiftBatch [],
          LcpBatch [\<lparr>lcp_startTime = 400, lcp_size = 25\<rparr>, \<lparr>lcp_startTime = 900, lcp_size = 60\<rparr>]]"
        1000]
  by simp

section \<open>Time to first byte\<close>

text \<open>
  C4, as stated, fails: the scripts test the navigation timing entry, not its
  \<^verbatim>\<open>requestStart\<close>. For an entry without \<^verbatim>\<open>requestStart\<close> the subtraction gives \<^verbatim>\<open>NaN\<close>, not
  \<^verbatim>\<open>null\<close>, and the markdown report writes a TTFB line that prints that \<^verbatim>\<open>NaN\<close>.
\<close>

theorem ttfb_without_requestStart_is_NaN:
  "html_ttfb \<lparr>lcp = None, cls = Undefined, inp = Undefined,
              navigationTiming = Some \<lparr>responseStart = Num 300, requestStart = Undefined\<rparr>,
              longTasks = None\<rparr> = NaN
   \<and> html_ttfb \<lparr>lcp = None, cls = Undefined, inp = Undefined,
              navigationTiming = Some \<lparr>responseStart = Num 300, requestStart = Undefined\<rparr>,
              longTasks = None\<rparr> \<noteq> Null
   \<and> md_ttfb \<lparr>lcp = None, cls = Undefined, inp = Undefined,
              navigationTiming = Some \<lparr>responseStart = Num 300, requestStart = Undefined\<rparr>,
              longTasks = None\<rparr> = Some NaN
   \<and> md_TTFB (generateReport_entry \<lparr>lcp = None, cls = Undefined, inp = Undefined,
              navigationTiming = Some \<lparr>responseStart = Num 300, requestStart = Undefined\<rparr>,
              longTasks = None\<rparr>) = Some (Fixed NaN 2)"
  by (simp add: html_ttfb_def md_ttfb_def js_minus_def generateReport_entry_def)

text \<open>
  C4, amended. For every step's metrics: when the navigation timing entry is present with
  numeric \<^verbatim>\<open>responseStart\<close> and \<^verbatim>\<open>requestStart\<close>, the computed TTFB is their difference (300
  and 100 give 200 ms) and the markdown report writes it as its TTFB line, with two
  decimals; when the navigation timing entry is absent, the computed TTFB is \<^verbatim>\<open>null\<close> and the
  markdown report writes no TTFB line.
\<close>

theorem ttfb_from_navigation_timing:
  "(navigationTiming m = Some \<lparr>responseStart = Num rs, requestStart = Num rq\<rparr> \<longrightarrow>
      html_ttfb m = Num (rs - rq)
      \<and> md_ttfb m = Some (Num (rs - rq))
      \<and> md_TTFB (generateReport_entry m) = Some (Fixed (Num (rs - rq)) 2))
   \<and> (navigationTiming m = None \<longrightarrow>
      html_ttfb m = Null
      \<and> md_ttfb m = None
      \<and> md_TTFB (generateReport_entry m) = None)
   \<and> html_ttfb (m\<lparr>navigationTiming := Some \<lparr>responseStart = Num 300, requestStart = Num 100\<rparr>\<rparr>)
        = Num 200
   \<and> md_TTFB (generateReport_entry
        (m\<lparr>navigationTiming := Some \<lparr>responseStart = Num 300, requestStart = Num 100\<rparr>\<rparr>))
        = Some (Fixed (Num 200) 2)"
  by (simp add: html_ttfb_def md_ttfb_def js_minus_def generateReport_entry_def)

theorem ttfb_from_navigation_timing_witness:
  "html_ttfb \<lparr>lcp = None, cls = Undefined, inp = Undefined,
              navigationTiming = Some \<lparr>responseStart = Num 300, requestStart = Num 100\<rparr>,
              longTasks = None\<rparr> = Num 200
   \<and> md_TTFB (generateReport_entry \<lparr>lcp = None, cls = Undefined, inp = Undefined,
              navigationTiming = Some \<lparr>responseStart = Num 300, requestStart = Num 100\<rparr>,
              longTasks = None\<rparr>) = Some (Fixed (Num 200) 2)
   \<and> html_ttfb \<lparr>lcp = None, cls = Undefined, inp = Undefined,
              navigationTiming = None, longTasks = None\<rparr> = Null
   \<and> md_TTFB (generateReport_entry \<lparr>lcp = None, cls = Undefined, inp = Undefined,
              navigationTiming = None, longTasks = None\<rparr>) = None"
  using ttfb_from_navigation_timing
          [of "\<lparr>lcp = None, cls = Undefined, inp = Undefined,
                navigationTiming = Some \<lparr>responseStart = Num 300, requestStart = Num 100\<rparr>,
                longTasks = None\<rparr>" 300 100]
        ttfb_from_navigation_timing
          [of "\<lparr>lcp = None, cls = Undefined, inp = Undefined,
                navigationTiming = None, longTasks = None\<rparr>" 0 0]
  by simp

section \<open>The HTML report of the enhanced script\<close>

lemma generateHtmlReport_always_rejects:
  "\<exists>e. generateHtmlReport r = Inl e"
  by (cases r) simp_all

lemma generateHtmlReport_of_parsed_report:
  "generateHtmlReport (Inr reportData) = Inl TypeError"
  by simp

section \<open>Missing signals in the reports\<close>

lemma markdown_missing_signals:
  "generateReport_entry \<lparr>lcp = None, cls = Undefined, inp = Undefined,
       navigationTiming = None, longTasks = None\<rparr>
     = \<lparr>md_LCP = NA, md_CLS = NA, md_INP = NA, md_TTFB = None, md_TBT = None,
        md_long_tasks_count = None\<rparr>"
  by (simp add: generateReport_entry_def lcp_duration_def md_ttfb_def md_tbt_def)

text \<open>
  C7 at its failing input: a step whose payload has no metric at all. The overview row of
  the MCP report shows \<^verbatim>\<open>'N/A'\<close> for LCP, INP, TTFB and TBT, but \<^verbatim>\<open>0\<close> for CLS; and with an
  LCP of 1200 and no CLS signal the step is marked good on the strength of that zero.
\<close>

theorem overview_row_shows_zero_for_missing_cls:
  "overview_row_of None
     = \<lparr>row_lcp = NA, row_cls = Shown (Num 0), row_inp = NA, row_ttfb = NA, row_tbt = NA,
        row_status_good = False\<rparr>
   \<and> overview_row_of (Some empty_payload) = overview_row_of None
   \<and> overview_row_of (Some (empty_payload\<lparr>LargestContentfulPaint := Num 1200\<rparr>))
     = \<lparr>row_lcp = Shown (Num 1200), row_cls = Shown (Num 0), row_inp = NA, row_ttfb = NA,
        row_tbt = NA, row_status_good = True\<rparr>"
  by (simp add: overview_row_of_def empty_payload_def or_NA_def or_zero_def js_lt_def Let_def)

section \<open>Decoding a trace file\<close>

lemma find_ts_total: "ElemNull \<notin> set es \<Longrightarrow> \<exists>v. find_ts name es = Inr v"
proof (induction es)
  case Nil
  show ?case by simp
next
  case (Cons x es)
  then show ?case by (cases x) auto
qed

lemma filter_named_total: "ElemNull \<notin> set es \<Longrightarrow> \<exists>v. filter_named name es = Inr v"
proof (induction es)
  case Nil
  show ?case by simp
next
  case (Cons x es)
  then show ?case by (cases x) (auto simp: bind_e_def)
qed

lemma metrics_of_events_total:
  assumes "ElemNull \<notin> set es"
  shows "\<exists>m. metrics_of_events es = Inr m"
proof -
  obtain a b c d where
    "find_ts ''navigationStart'' es = Inr a" "find_ts ''loadEventEnd'' es = Inr b"
    "find_ts ''firstPaint'' es = Inr c" "find_ts ''firstContentfulPaint'' es = Inr d"
    using find_ts_total [OF assms] by meson
  moreover obtain s r where
    "filter_named ''ResourceSendRequest'' es = Inr s"
    "filter_named ''ResourceReceiveResponse'' es = Inr r"
    using filter_named_total [OF assms] by meson
  ultimately show ?thesis
    by (simp add: metrics_of_events_def bind_e_def)
qed

text \<open>
  C2, as stated, fails: for a trace file whose text is not JSON (the empty file, a
  truncated capture) the SyntaxError of \<^verbatim>\<open>JSON.parse\<close> leaves parseTraceMetrics, and it
  leaves generateReport too, whatever the other entries are.
\<close>

theorem malformed_trace_raises:
  "parseTraceMetrics NotJson = Inl SyntaxError
   \<and> parse_all [JsonArray [], NotJson, JsonArray []] = Inl SyntaxError"
  by (simp add: bind_e_def metrics_of_events_def)


text \<open>
  C2, amended. parseTraceMetrics returns its metrics for every trace file that holds a
  JSON array without \<^verbatim>\<open>null\<close> elements, the empty array included. A file that cannot be
  read or whose text is not JSON (empty, truncated, malformed) is not turned into a value:
  the rejection or SyntaxError leaves the function. In recordTraceAround a decoder result
  that is \<^verbatim>\<open>null\<close> or has no \<^verbatim>\<open>parsedTrace\<close> becomes the summary text
  \<^verbatim>\<open>Error parsing trace: ...\<close>, without an exception and without a further call.
\<close>

theorem trace_decoding_outcomes:
  "(ElemNull \<notin> set es \<longrightarrow> (\<exists>m. parseTraceMetrics (JsonArray es) = Inr m))
   \<and> (\<exists>m. parseTraceMetrics (JsonArray []) = Inr m \<and> networkRequests m = 0 \<and> loadTime m = Null)
   \<and> parseTraceMetrics NotJson = Inl SyntaxError
   \<and> parseTraceMetrics (Unreadable e) = Inl e
   \<and> summary_of E None w = (Inr ''Error parsing trace: unknown'', w)
   \<and> summary_of E (Some \<lparr>parsedTrace = None, error = Some msg\<rparr>) w
       = (Inr (''Error parsing trace: '' @ msg), w)
   \<and> summary_of E (Some \<lparr>parsedTrace = None, error = None\<rparr>) w
       = (Inr ''Error parsing trace: unknown'', w)"
proof (intro conjI impI)
  assume "ElemNull \<notin> set es"
  then show "\<exists>m. parseTraceMetrics (JsonArray es) = Inr m"
    by (simp add: metrics_of_events_total)
next
  show "\<exists>m. parseTraceMetrics (JsonArray []) = Inr m \<and> networkRequests m = 0 \<and> loadTime m = Null"
    by (simp add: metrics_of_events_def bind_e_def span_ms_def)
qed (simp_all add: summary_of_def return_def)

theorem trace_decoding_outcomes_witness:
  "ElemNull \<notin> set [Elem \<lparr>ev_name = Some ''navigationStart'', ev_ts = Num 1000, ev_encodedDataLength = Undefined\<rparr>,
                      Elem \<lparr>ev_name = Some ''loadEventEnd'', ev_ts = Num 3000, ev_encodedDataLength = Undefined\<rparr>]
   \<and> (\<exists>m. parseTraceMetrics
          (JsonArray [Elem \<lparr>ev_name = Some ''navigationStart'', ev_ts = Num 1000, ev_encodedDataLength = Undefined\<rparr>,
                      Elem \<lparr>ev_name = Some ''loadEventEnd'', ev_ts = Num 3000, ev_encodedDataLength = Undefined\<rparr>])
        = Inr m)"
  using trace_decoding_outcomes
    [of "[Elem \<lparr>ev_name = Some ''navigationStart'', ev_ts = Num 1000, ev_encodedDataLength = Undefined\<rparr>,
          Elem \<lparr>ev_name = Some ''loadEventEnd'', ev_ts = Num 3000, ev_encodedDataLength = Undefined\<rparr>]"]
  by simp

lemma parseTraceMetrics_example:
  "parseTraceMetrics
     (JsonArray [Elem \<lparr>ev_name = Some ''navigationStart'', ev_ts = Num 1000, ev_encodedDataLength = Undefined\<rparr>,
                 Elem \<lparr>ev_name = Some ''ResourceReceiveResponse'', ev_ts = Num 1500, ev_encodedDataLength = Num 2097152\<rparr>,
                 Elem \<lparr>ev_name = Some ''loadEventEnd'', ev_ts = Num 3000, ev_encodedDataLength = Undefined\<rparr>])
     = Inr \<lparr>loadTime = Num 2, firstPaint = Null, firstContentfulPaint = Null,
            networkRequests = 0, networkBytes = 2\<rparr>"
  by (simp add: metrics_of_events_def bind_e_def span_ms_def js_div_def js_minus_def
        sum_encoded_def or_zero_def)

lemma non_array_trace_raises: "parseTraceMetrics JsonOther = Inl TypeError"
  by simp

section \<open>Rules for composed calls\<close>

lemma bind_InrE:
  assumes "bind m k w = (Inr y, w')"
  obtains x w1 where "m w = (Inr x, w1)" and "k x w1 = (Inr y, w')"
  using assms unfolding bind_def by (cases "m w") (auto split: sum.splits)

lemma bind_Inr: "m w = (Inr x, w1) \<Longrightarrow> bind m k w = k x w1"
  by (simp add: bind_def)

lemma bind_Inl: "m w = (Inl e, w1) \<Longrightarrow> bind m k w = (Inl e, w1)"
  by (simp add: bind_def)

lemma pair_of_fst: "fst p = a \<Longrightarrow> p = (a, snd p)"
  by (cases p) simp

lemma return_apply: "return x w = (Inr x, w)"
  by (simp add: return_def)

lemma request_apply:
  "request E c answer w =
     ((case rejects E (history w) c of Some msg \<Rightarrow> Inl (Rejection msg)
       | None \<Rightarrow> Inr (answer (history w))),
      \<lparr>history = history w @ [\<lparr>call = c, started = clock w,
                                 finished = clock w + duration_of E (history w) c\<rparr>],
       clock = clock w + duration_of E (history w) c\<rparr>)"
  by (simp add: request_def Let_def)

lemma sleep_apply:
  "sleep E ms w =
     (Inr (), \<lparr>history = history w @ [\<lparr>call = SetTimeout ms, started = clock w,
                                       finished = clock w + (ms + takes E (history w) (SetTimeout ms))\<rparr>],
               clock = clock w + (ms + takes E (history w) (SetTimeout ms))\<rparr>)"
  by (simp add: sleep_def duration_of_def Let_def)

lemma emitsI:
  assumes "\<And>w. \<exists>es. history (snd (m w)) = history w @ es
            \<and> list_all (\<lambda>e. P (call e) \<and> clock w \<le> started e) es
            \<and> clock w \<le> clock (snd (m w))"
  shows "emits P m"
  using assms unfolding emits_def by blast

lemma emitsD:
  assumes "emits P m"
  obtains es where "history (snd (m w)) = history w @ es"
    and "list_all (\<lambda>e. P (call e) \<and> clock w \<le> started e) es"
    and "clock w \<le> clock (snd (m w))"
  using assms unfolding emits_def by blast

lemma emits_return: "emits P (return x)"
  by (rule emitsI) (simp add: return_def)

lemma emits_now: "emits P (now E)"
  by (rule emitsI) (simp add: now_def)

lemma emits_request: "P c \<Longrightarrow> emits P (request E c answer)"
  by (rule emitsI) (simp add: request_apply)

lemma emits_perform: "P c \<Longrightarrow> emits P (perform E c)"
  unfolding perform_def by (rule emits_request)

lemma emits_sleep: "P (SetTimeout ms) \<Longrightarrow> emits P (sleep E ms)"
  by (rule emitsI) (simp add: sleep_apply)

lemma list_all_later:
  "list_all (\<lambda>e. P (call e) \<and> t' \<le> started e) es \<Longrightarrow> t \<le> t' \<Longrightarrow>
   list_all (\<lambda>e. P (call e) \<and> (t::nat) \<le> started e) es"
  by (induction es) auto

lemma emits_bind:
  assumes m: "emits P m" and k: "\<And>x. emits P (k x)"
  shows "emits P (bind m k)"
proof (rule emitsI)
  fix w
  obtain r w1 where mw: "m w = (r, w1)" by (cases "m w")
  from m obtain es where es: "history w1 = history w @ es"
      "list_all (\<lambda>e. P (call e) \<and> clock w \<le> started e) es" "clock w \<le> clock w1"
    using mw by (metis emitsD snd_conv)
  show "\<exists>es. history (snd (bind m k w)) = history w @ es
            \<and> list_all (\<lambda>e. P (call e) \<and> clock w \<le> started e) es
            \<and> clock w \<le> clock (snd (bind m k w))"
  proof (cases r)
    case (Inl e)
    with mw es show ?thesis by (auto simp: bind_def)
  next
    case (Inr x)
    from k [of x] obtain fs where fs: "history (snd (k x w1)) = history w1 @ fs"
        "list_all (\<lambda>e. P (call e) \<and> clock w1 \<le> started e) fs" "clock w1 \<le> clock (snd (k x w1))"
      by (rule emitsD)
    from fs(2) es(3) have "list_all (\<lambda>e. P (call e) \<and> clock w \<le> started e) fs"
      by (rule list_all_later)
    with Inr mw es fs show ?thesis
      by (intro exI [of _ "es @ fs"]) (simp add: bind_def)
  qed
qed

lemma catch_cases:
  "catch m h w = m w
   \<or> (\<exists>e w1. m w = (Inl e, w1) \<and> (\<forall>e'. e \<noteq> UnhandledRejection e') \<and> catch m h w = h e w1)"
  by (cases "m w") (auto simp: catch_def split: sum.splits exn.splits)

lemma emits_catch:
  assumes m: "emits P m" and k: "\<And>e. emits P (h e)"
  shows "emits P (catch m h)"
proof (rule emitsI)
  fix w
  from m obtain es where es: "history (snd (m w)) = history w @ es"
      "list_all (\<lambda>e. P (call e) \<and> clock w \<le> started e) es" "clock w \<le> clock (snd (m w))"
    by (rule emitsD)
  from catch_cases [of m h w]
  show "\<exists>es. history (snd (catch m h w)) = history w @ es
            \<and> list_all (\<lambda>e. P (call e) \<and> clock w \<le> started e) es
            \<and> clock w \<le> clock (snd (catch m h w))"
  proof
    assume "catch m h w = m w"
    with es show ?thesis by auto
  next
    assume "\<exists>e w1. m w = (Inl e, w1) \<and> (\<forall>e'. e \<noteq> UnhandledRejection e') \<and> catch m h w = h e w1"
    then obtain e w1 where mw: "m w = (Inl e, w1)" and c: "catch m h w = h e w1" by blast
    from k [of e] obtain fs where fs: "history (snd (h e w1)) = history w1 @ fs"
        "list_all (\<lambda>e. P (call e) \<and> clock w1 \<le> started e) fs" "clock w1 \<le> clock (snd (h e w1))"
      by (rule emitsD)
    from mw es have w1: "history w1 = history w @ es" "clock w \<le> clock w1" by simp_all
    from fs(2) w1(2) have "list_all (\<lambda>e. P (call e) \<and> clock w \<le> started e) fs"
      by (rule list_all_later)
    with es(2) w1 fs c show ?thesis
      by (intro exI [of _ "es @ fs"]) simp
  qed
qed

lemma emits_if: "emits P a \<Longrightarrow> emits P b \<Longrightarrow> emits P (if c then a else b)"
  by simp

lemma emits_weaken:
  assumes "emits P m" and "\<And>c. P c \<Longrightarrow> Q c"
  shows "emits Q m"
proof (rule emitsI)
  fix w
  from assms(1) obtain es where es: "history (snd (m w)) = history w @ es"
      "list_all (\<lambda>e. P (call e) \<and> clock w \<le> started e) es" "clock w \<le> clock (snd (m w))"
    by (rule emitsD)
  from es(2) assms(2) have "list_all (\<lambda>e. Q (call e) \<and> clock w \<le> started e) es"
    by (induction es) auto
  with es show "\<exists>es. history (snd (m w)) = history w @ es
            \<and> list_all (\<lambda>e. Q (call e) \<and> clock w \<le> started e) es
            \<and> clock w \<le> clock (snd (m w))"
    by blast
qed

lemma emits_promise_all: "P a \<Longrightarrow> P b \<Longrightarrow> emits P (promise_all E a b)"
  by (rule emitsI)
     (auto simp: promise_all_def both_issued_def Let_def split: option.splits)

lemma emits_promise_race: "P a \<Longrightarrow> P b \<Longrightarrow> emits P (promise_race E a b)"
  by (rule emitsI)
     (auto simp: promise_race_def both_issued_def Let_def split: option.splits)


section \<open>What cannot end the process\<close>

lemma no_exitI: "(\<And>w e. fst (m w) \<noteq> Inl (UnhandledRejection e)) \<Longrightarrow> no_exit m"
  unfolding no_exit_def by blast

lemma no_exitD: "no_exit m \<Longrightarrow> fst (m w) \<noteq> Inl (UnhandledRejection e)"
  unfolding no_exit_def by blast

lemma no_exit_return: "no_exit (return x)"
  by (rule no_exitI) (simp add: return_def)

lemma no_exit_request: "no_exit (request E c answer)"
  by (rule no_exitI) (simp add: request_apply split: option.splits)

lemma no_exit_perform: "no_exit (perform E c)"
  unfolding perform_def by (rule no_exit_request)

lemma no_exit_sleep: "no_exit (sleep E ms)"
  by (rule no_exitI) (simp add: sleep_apply)

lemma no_exit_bind:
  assumes "no_exit m" and "\<And>x. no_exit (k x)"
  shows "no_exit (bind m k)"
proof (rule no_exitI)
  fix w e
  obtain r w1 where mw: "m w = (r, w1)" by (cases "m w")
  show "fst (bind m k w) \<noteq> Inl (UnhandledRejection e)"
  proof (cases r)
    case (Inl e')
    with mw no_exitD [OF assms(1), of w e] show ?thesis by (simp add: bind_def)
  next
    case (Inr x)
    with mw no_exitD [OF assms(2), of x w1 e] show ?thesis by (simp add: bind_def)
  qed
qed

lemma no_exit_promise_all: "no_exit (promise_all E a b)"
  by (rule no_exitI)
     (auto simp: promise_all_def both_issued_def Let_def split: option.splits)

lemma no_exit_promise_race: "no_exit (promise_race E a b)"
  by (rule no_exitI)
     (auto simp: promise_race_def both_issued_def Let_def split: option.splits)

lemmas no_exit_intros =
  no_exit_bind no_exit_return no_exit_request no_exit_perform no_exit_sleep
  no_exit_promise_all no_exit_promise_race
lemma emits_bind_post:
  assumes m: "emits P m" and post: "\<And>w x w'. m w = (Inr x, w') \<Longrightarrow> Q x"
    and k: "\<And>x. Q x \<Longrightarrow> emits P (k x)"
  shows "emits P (bind m k)"
proof (rule emitsI)
  fix w
  obtain r w1 where mw: "m w = (r, w1)" by (cases "m w")
  from m obtain es where es: "history w1 = history w @ es"
      "list_all (\<lambda>e. P (call e) \<and> clock w \<le> started e) es" "clock w \<le> clock w1"
    using mw by (metis emitsD snd_conv)
  show "\<exists>es. history (snd (bind m k w)) = history w @ es
            \<and> list_all (\<lambda>e. P (call e) \<and> clock w \<le> started e) es
            \<and> clock w \<le> clock (snd (bind m k w))"
  proof (cases r)
    case (Inl e)
    with mw es show ?thesis by (auto simp: bind_def)
  next
    case (Inr x)
    with mw have "Q x" by (auto intro: post)
    from k [OF this] obtain fs where fs: "history (snd (k x w1)) = history w1 @ fs"
        "list_all (\<lambda>e. P (call e) \<and> clock w1 \<le> started e) fs" "clock w1 \<le> clock (snd (k x w1))"
      by (rule emitsD)
    from fs(2) es(3) have "list_all (\<lambda>e. P (call e) \<and> clock w \<le> started e) fs"
      by (rule list_all_later)
    with Inr mw es fs show ?thesis
      by (intro exI [of _ "es @ fs"]) (simp add: bind_def)
  qed
qed

lemma resolvesI: "(\<And>w. \<exists>x. fst (m w) = Inr x) \<Longrightarrow> resolves m"
  unfolding resolves_def by blast

lemma resolvesD: "resolves m \<Longrightarrow> \<exists>x w'. m w = (Inr x, w')"
  unfolding resolves_def by (metis prod.collapse)

lemma resolves_return: "resolves (return x)"
  by (rule resolvesI) (simp add: return_def)

lemma resolves_now: "resolves (now E)"
  by (rule resolvesI) (simp add: now_def)

lemma resolves_sleep: "resolves (sleep E ms)"
  by (rule resolvesI) (simp add: sleep_apply)

lemma resolves_request: "rejects_only T E \<Longrightarrow> \<not> T c \<Longrightarrow> resolves (request E c answer)"
  unfolding rejects_only_def
  by (rule resolvesI) (metis (mono_tags, lifting) request_apply fst_conv option.simps(4))

lemma resolves_perform: "rejects_only T E \<Longrightarrow> \<not> T c \<Longrightarrow> resolves (perform E c)"
  unfolding perform_def by (rule resolves_request)

lemma resolves_bind:
  assumes "resolves m" and "\<And>x. resolves (k x)"
  shows "resolves (bind m k)"
proof (rule resolvesI)
  fix w
  from assms(1) obtain x w1 where "m w = (Inr x, w1)" using resolvesD by blast
  moreover from assms(2) obtain y w2 where "k x w1 = (Inr y, w2)" using resolvesD by blast
  ultimately show "\<exists>y. fst (bind m k w) = Inr y" by (simp add: bind_def)
qed

lemma resolves_bind_post:
  assumes "resolves m" and "\<And>w x w'. m w = (Inr x, w') \<Longrightarrow> Q x" and "\<And>x. Q x \<Longrightarrow> resolves (k x)"
  shows "resolves (bind m k)"
proof (rule resolvesI)
  fix w
  from assms(1) obtain x w1 where mw: "m w = (Inr x, w1)" using resolvesD by blast
  then have "Q x" by (rule assms(2))
  then have "resolves (k x)" by (rule assms(3))
  then obtain y w2 where "k x w1 = (Inr y, w2)" using resolvesD by blast
  with mw show "\<exists>y. fst (bind m k w) = Inr y" by (simp add: bind_def)
qed

lemma resolves_catch:
  assumes "no_exit m" and "\<And>e. resolves (h e)"
  shows "resolves (catch m h)"
proof (rule resolvesI)
  fix w
  from catch_cases [of m h w]
  show "\<exists>x. fst (catch m h w) = Inr x"
  proof
    assume c: "catch m h w = m w"
    obtain r w1 where mw: "m w = (r, w1)" by (cases "m w")
    show ?thesis
    proof (cases r)
      case (Inr x)
      with mw c show ?thesis by simp
    next
      case (Inl e)
      with mw have "catch m h w = h e w1 \<or> (\<exists>e'. e = UnhandledRejection e')"
        by (auto simp: catch_def split: exn.splits)
      moreover from no_exitD [OF assms(1), of w] mw Inl have "\<not> (\<exists>e'. e = UnhandledRejection e')"
        by auto
      moreover from assms(2) [of e] obtain y w2 where "h e w1 = (Inr y, w2)"
        using resolvesD by blast
      ultimately show ?thesis by auto
    qed
  next
    assume "\<exists>e w1. m w = (Inl e, w1) \<and> (\<forall>e'. e \<noteq> UnhandledRejection e') \<and> catch m h w = h e w1"
    then obtain e w1 where c: "catch m h w = h e w1" by blast
    from assms(2) [of e] obtain y w2 where "h e w1 = (Inr y, w2)" using resolvesD by blast
    with c show ?thesis by simp
  qed
qed

lemma resolves_finally_do: "resolves m \<Longrightarrow> resolves (finally_do m f)"
proof (rule resolvesI)
  fix w
  assume "resolves m"
  then obtain x w1 where "m w = (Inr x, w1)" using resolvesD by blast
  then show "\<exists>x. fst (finally_do m f w) = Inr x" by (simp add: finally_do_def)
qed

section \<open>The helpers of full\_scenario\_perf.mjs\<close>

lemma emits_nodes_loop:
  assumes "\<And>n. P (NodeClick n)"
  shows "emits P (nodes_loop E txt ns)"
  by (induction ns) (auto intro!: emits_return emits_bind emits_perform assms)

lemma emits_querySelectorAll: "P (QuerySelectorAll sel) \<Longrightarrow> emits P (querySelectorAll E sel)"
  unfolding querySelectorAll_def by (rule emits_request)

lemma emits_querySelector: "P (QuerySelector sel) \<Longrightarrow> emits P (querySelector E sel)"
  unfolding querySelector_def by (rule emits_request)

lemma emits_sels_loop:
  assumes "\<And>n. P (NodeClick n)" and "\<And>s. P (QuerySelectorAll s)"
  shows "emits P (sels_loop E txt sels)"
  by (induction sels)
     (auto intro!: emits_return emits_bind emits_querySelectorAll emits_nodes_loop assms)

lemma emits_clickByText:
  assumes "\<And>n. P (NodeClick n)" and "\<And>s. P (QuerySelectorAll s)" and "P (Evaluate (ClickByText sl t))"
  shows "emits P (clickByText E sl t)"
  unfolding clickByText_def evaluate_def
  by (intro emits_bind emits_perform emits_sels_loop assms)

lemma emits_typeIfExists:
  assumes "\<And>s. P (Query s)" and "\<And>h n. P (HandleClick h n)" and "\<And>h v. P (HandleType h v)"
  shows "emits P (typeIfExists E sel v)"
  unfolding typeIfExists_def
  by (intro emits_catch emits_bind emits_request emits_return assms)
     (auto intro!: emits_return emits_bind emits_perform assms split: option.splits)

lemma emits_goto_caught: "P (Goto u) \<Longrightarrow> emits P (goto_caught E u)"
  unfolding goto_caught_def by (intro emits_catch emits_perform emits_return)

lemma emits_waitForNavigation_caught:
  "P (WaitForNavigation (Some t)) \<Longrightarrow> emits P (waitForNavigation_caught E t)"
  unfolding waitForNavigation_caught_def by (intro emits_catch emits_perform emits_return)

lemma emits_clickByText_not_awaited:
  "P (Evaluate (ClickByText sl t)) \<Longrightarrow> emits P (clickByText_not_awaited E sl t)"
  by (rule emitsI) (simp add: clickByText_not_awaited_def Let_def)

lemma emits_or_promise: "emits P m \<Longrightarrow> emits P (or_promise a m)"
  unfolding or_promise_def by (auto intro!: emits_return)

lemma or_promise_truthy:
  "or_promise a (clickByText_not_awaited E sl t) w = (Inr f, w') \<Longrightarrow> flag_truthy f"
  unfolding or_promise_def
  by (auto simp: return_def clickByText_not_awaited_def Let_def split: if_splits)

lemma or_promise_not_rejected:
  assumes "rejects_only tolerated E"
    and "or_promise a (clickByText_not_awaited E sl t) w = (Inr f, w')"
  shows "pending_rejection f = None"
proof -
  from assms(1) have "rejects E (history w) (Evaluate (ClickByText sl t)) = None"
  proof -
    have "\<not> tolerated (Evaluate (ClickByText sl t))" by simp
    with assms(1) show ?thesis unfolding rejects_only_def by blast
  qed
  with assms(2) show ?thesis
    unfolding or_promise_def
    by (auto simp: return_def clickByText_not_awaited_def Let_def split: if_splits)
qed

lemma resolves_or_promise: "resolves (or_promise a (clickByText_not_awaited E sl t))"
  unfolding or_promise_def
  by (rule resolvesI) (simp add: return_def clickByText_not_awaited_def Let_def)

lemma emits_await_while_pending:
  assumes click: "\<And>n. P (NodeClick n)" and query: "\<And>s. P (QuerySelectorAll s)"
    and m: "emits P m"
  shows "emits P (await_while_pending E clicked m)"
proof (cases clicked)
  case (Flag b)
  with m show ?thesis by (simp add: await_while_pending_def emits_def)
next
  case (PendingClick sl tx rej rcv)
  show ?thesis
  proof (rule emitsI)
    fix w
    from m obtain es where es: "history (snd (m w)) = history w @ es"
        "list_all (\<lambda>e. P (call e) \<and> clock w \<le> started e) es" "clock w \<le> clock (snd (m w))"
      by (rule emitsD)
    show "\<exists>es. history (snd (await_while_pending E clicked m w)) = history w @ es
            \<and> list_all (\<lambda>e. P (call e) \<and> clock w \<le> started e) es
            \<and> clock w \<le> clock (snd (await_while_pending E clicked m w))"
    proof (cases rej)
      case (Some msg)
      with PendingClick es show ?thesis
        by (auto simp: await_while_pending_def Let_def)
    next
      case None
      define w1 where "w1 = (snd (m w))\<lparr>clock := max (clock w) rcv\<rparr>"
      have "emits P (sels_loop E tx (split_on CHR '','' sl))"
        by (rule emits_sels_loop) (rule click query)+
      then obtain fs where fs:
          "history (snd (sels_loop E tx (split_on CHR '','' sl) w1)) = history w1 @ fs"
          "list_all (\<lambda>e. P (call e) \<and> clock w1 \<le> started e) fs"
        by (rule emitsD)
      have "clock w \<le> clock w1" by (simp add: w1_def)
      with fs(2) have later: "list_all (\<lambda>e. P (call e) \<and> clock w \<le> started e) fs"
        by (rule list_all_later)
      have "history w1 = history w @ es" by (simp add: w1_def es(1))
      with fs(1) have h: "history (snd (sels_loop E tx (split_on CHR '','' sl) w1)) = history w @ es @ fs"
        by simp
      from PendingClick None h es(2,3) later show ?thesis
        by (intro exI [of _ "es @ fs"])
           (simp add: await_while_pending_def Let_def w1_def [symmetric] split: sum.splits)
    qed
  qed
qed

lemma resolves_nodes_loop:
  assumes "rejects_only tolerated E"
  shows "resolves (nodes_loop E txt ns)"
  by (induction ns)
     (auto intro!: resolves_return resolves_bind resolves_perform [OF assms])

lemma resolves_sels_loop:
  assumes "rejects_only tolerated E"
  shows "resolves (sels_loop E txt sels)"
  by (induction sels)
     (auto intro!: resolves_return resolves_bind resolves_nodes_loop [OF assms]
        resolves_request [OF assms] simp: querySelectorAll_def)

lemma resolves_clickByText:
  assumes "rejects_only tolerated E"
  shows "resolves (clickByText E sl t)"
  unfolding clickByText_def evaluate_def
  by (intro resolves_bind resolves_perform [OF assms] resolves_sels_loop [OF assms]) simp

lemma resolves_typeIfExists: "resolves (typeIfExists E sel v)"
  unfolding typeIfExists_def
  by (rule resolves_catch)
     (auto intro!: no_exit_intros resolves_return split: option.splits)

lemma resolves_goto_caught: "resolves (goto_caught E u)"
  unfolding goto_caught_def by (intro resolves_catch resolves_return no_exit_perform)

lemma resolves_waitForNavigation_caught: "resolves (waitForNavigation_caught E t)"
  unfolding waitForNavigation_caught_def
  by (intro resolves_catch resolves_return no_exit_perform)

lemma resolves_await_while_pending:
  assumes E: "rejects_only tolerated E" and m: "resolves m"
    and pending: "pending_rejection clicked = None"
  shows "resolves (await_while_pending E clicked m)"
proof (cases clicked)
  case (Flag b)
  with m show ?thesis by (simp add: await_while_pending_def resolves_def)
next
  case (PendingClick sl tx rej rcv)
  show ?thesis
  proof (rule resolvesI)
    fix w
    from m obtain x w1 where mw: "m w = (Inr x, w1)" using resolvesD by blast
    from resolves_sels_loop [OF E]
    obtain found w2 where
      "sels_loop E tx (split_on CHR '','' sl) (w1\<lparr>clock := max (clock w) rcv\<rparr>) = (Inr found, w2)"
      using resolvesD by blast
    with PendingClick pending mw show "\<exists>x. fst (await_while_pending E clicked m w) = Inr x"
      by (simp add: await_while_pending_def Let_def)
  qed
qed

section \<open>The actions of run\<close>

lemmas emits_intros =
  emits_bind emits_clickByText emits_typeIfExists emits_goto_caught
  emits_waitForNavigation_caught emits_sleep emits_perform emits_request emits_return
  emits_querySelector emits_querySelectorAll emits_or_promise emits_catch emits_now
  emits_clickByText_not_awaited emits_await_while_pending

lemma emits_home_action: "emits acts_on_page (home_action E)"
  unfolding home_action_def by (auto intro!: emits_intros)

lemma emits_sign_in_action: "emits acts_on_page (sign_in_action E)"
  unfolding sign_in_action_def by (auto intro!: emits_intros)

lemma emits_login_action: "emits acts_on_page (login_action E)"
  unfolding login_action_def evaluate_def submit_form_def
  by (auto intro!: emits_intros split: option.splits)

lemma emits_fish_action: "emits acts_on_page (fish_action E)"
  unfolding fish_action_def by (auto intro!: emits_intros)

lemma emits_product_action: "emits acts_on_page (product_action E)"
  unfolding product_action_def evaluate_def click_product_def
  by (auto intro!: emits_intros split: option.splits)

lemma emits_add_to_cart_action: "emits acts_on_page (add_to_cart_action E)"
  unfolding add_to_cart_action_def evaluate_def click_add_button_def
  by (auto intro!: emits_intros split: option.splits)

text \<open>
  In the three steps that write \<^verbatim>\<open>await a() || b()\<close> the value of \<^verbatim>\<open>clicked\<close> is always
  truthy, so the branch under \<^verbatim>\<open>if (!clicked)\<close> is never taken.
\<close>

lemma emits_view_cart_action: "emits (\<lambda>c. acts_on_page c \<and> \<not> is_goto c) (view_cart_action E)"
  unfolding view_cart_action_def
proof (rule emits_bind)
  fix c1
  show "emits (\<lambda>c. acts_on_page c \<and> \<not> is_goto c)
     (bind (or_promise c1 (clickByText_not_awaited E ''a,button'' ''View Cart''))
        (\<lambda>clicked. bind (if \<not> flag_truthy clicked then goto_caught E (Resolved ''/actions/Cart.action'')
              else return ())
          (\<lambda>_. bind (await_while_pending E clicked (waitForNavigation_caught E 8000))
                 (\<lambda>_. sleep E 1000))))"
  proof (rule emits_bind_post [where Q = flag_truthy])
    show "emits (\<lambda>c. acts_on_page c \<and> \<not> is_goto c) (or_promise c1 (clickByText_not_awaited E ''a,button'' ''View Cart''))"
      by (auto intro!: emits_intros)
  next
    fix w x w'
    assume "or_promise c1 (clickByText_not_awaited E ''a,button'' ''View Cart'') w = (Inr x, w')"
    then show "flag_truthy x" by (rule or_promise_truthy)
  next
    fix x
    assume "flag_truthy x"
    then show "emits (\<lambda>c. acts_on_page c \<and> \<not> is_goto c)
       (bind (if \<not> flag_truthy x then goto_caught E (Resolved ''/actions/Cart.action'') else return ())
          (\<lambda>_. bind (await_while_pending E x (waitForNavigation_caught E 8000))
                 (\<lambda>_. sleep E 1000)))"
      by (auto intro!: emits_intros)
  qed
qed (auto intro!: emits_intros)

lemma emits_logout_action: "emits (\<lambda>c. acts_on_page c \<and> \<not> is_goto c) (logout_action E)"
  unfolding logout_action_def
proof (rule emits_bind)
  fix c1
  show "emits (\<lambda>c. acts_on_page c \<and> \<not> is_goto c)
     (bind (or_promise c1 (clickByText_not_awaited E ''a,button'' ''Logout''))
        (\<lambda>clicked. bind (if \<not> flag_truthy clicked then goto_caught E (Resolved ''/actions/Account.action?signoff='')
              else return ())
          (\<lambda>_. bind (await_while_pending E clicked (waitForNavigation_caught E 8000))
                 (\<lambda>_. sleep E 1000))))"
  proof (rule emits_bind_post [where Q = flag_truthy])
    show "emits (\<lambda>c. acts_on_page c \<and> \<not> is_goto c) (or_promise c1 (clickByText_not_awaited E ''a,button'' ''Logout''))"
      by (auto intro!: emits_intros)
  next
    fix w x w'
    assume "or_promise c1 (clickByText_not_awaited E ''a,button'' ''Logout'') w = (Inr x, w')"
    then show "flag_truthy x" by (rule or_promise_truthy)
  next
    fix x
    assume "flag_truthy x"
    then show "emits (\<lambda>c. acts_on_page c \<and> \<not> is_goto c)
       (bind (if \<not> flag_truthy x then goto_caught E (Resolved ''/actions/Account.action?signoff='') else return ())
          (\<lambda>_. bind (await_while_pending E x (waitForNavigation_caught E 8000))
                 (\<lambda>_. sleep E 1000)))"
      by (auto intro!: emits_intros)
  qed
qed (auto intro!: emits_intros)

lemma emits_checkout_action:
  "emits (\<lambda>c. acts_on_page c \<and> c \<noteq> Evaluate ClickCheckoutButton) (checkout_action E)"
  unfolding checkout_action_def
proof (rule emits_bind)
  fix c1
  show "emits (\<lambda>c. acts_on_page c \<and> c \<noteq> Evaluate ClickCheckoutButton)
     (bind (or_promise c1 (clickByText_not_awaited E ''a,button'' ''Proceed''))
        (\<lambda>clicked. bind (if \<not> flag_truthy clicked then evaluate E ClickCheckoutButton (click_checkout_button E)
              else return ())
          (\<lambda>_. bind (await_while_pending E clicked (waitForNavigation_caught E 8000))
                 (\<lambda>_. sleep E 1000))))"
  proof (rule emits_bind_post [where Q = flag_truthy])
    show "emits (\<lambda>c. acts_on_page c \<and> c \<noteq> Evaluate ClickCheckoutButton)
       (or_promise c1 (clickByText_not_awaited E ''a,button'' ''Proceed''))"
      by (auto intro!: emits_intros)
  next
    fix w x w'
    assume "or_promise c1 (clickByText_not_awaited E ''a,button'' ''Proceed'') w = (Inr x, w')"
    then show "flag_truthy x" by (rule or_promise_truthy)
  next
    fix x
    assume "flag_truthy x"
    then show "emits (\<lambda>c. acts_on_page c \<and> c \<noteq> Evaluate ClickCheckoutButton)
       (bind (if \<not> flag_truthy x then evaluate E ClickCheckoutButton (click_checkout_button E) else return ())
          (\<lambda>_. bind (await_while_pending E x (waitForNavigation_caught E 8000))
                 (\<lambda>_. sleep E 1000)))"
      by (auto intro!: emits_intros)
  qed
qed (auto intro!: emits_intros)

lemmas resolves_intros =
  resolves_bind resolves_clickByText resolves_typeIfExists resolves_goto_caught
  resolves_waitForNavigation_caught resolves_sleep resolves_return resolves_or_promise
  resolves_now

lemma resolves_home_action: "rejects_only tolerated E \<Longrightarrow> resolves (home_action E)"
  unfolding home_action_def by (auto intro!: resolves_perform [where T = tolerated])

lemma resolves_sign_in_action: "rejects_only tolerated E \<Longrightarrow> resolves (sign_in_action E)"
  unfolding sign_in_action_def by (auto intro!: resolves_intros)

lemma resolves_login_action: "rejects_only tolerated E \<Longrightarrow> resolves (login_action E)"
  unfolding login_action_def evaluate_def submit_form_def querySelector_def
  by (auto intro!: resolves_intros resolves_perform [where T = tolerated] resolves_request [where T = tolerated] split: option.splits)

lemma resolves_fish_action: "rejects_only tolerated E \<Longrightarrow> resolves (fish_action E)"
  unfolding fish_action_def by (auto intro!: resolves_intros)

lemma resolves_product_action: "rejects_only tolerated E \<Longrightarrow> resolves (product_action E)"
  unfolding product_action_def evaluate_def click_product_def querySelector_def querySelectorAll_def
  by (auto intro!: resolves_intros resolves_perform [where T = tolerated] resolves_request [where T = tolerated] split: option.splits)

lemma resolves_add_to_cart_action: "rejects_only tolerated E \<Longrightarrow> resolves (add_to_cart_action E)"
  unfolding add_to_cart_action_def evaluate_def click_add_button_def querySelector_def
  by (auto intro!: resolves_intros resolves_perform [where T = tolerated] resolves_request [where T = tolerated] split: option.splits)

lemma resolves_view_cart_action:
  assumes "rejects_only tolerated E"
  shows "resolves (view_cart_action E)"
  unfolding view_cart_action_def
proof (rule resolves_bind)
  fix c1
  show "resolves
     (bind (or_promise c1 (clickByText_not_awaited E ''a,button'' ''View Cart''))
        (\<lambda>clicked. bind (if \<not> flag_truthy clicked then goto_caught E (Resolved ''/actions/Cart.action'') else return ())
          (\<lambda>_. bind (await_while_pending E clicked (waitForNavigation_caught E 8000))
                 (\<lambda>_. sleep E 1000))))"
  proof (rule resolves_bind_post [where Q = "\<lambda>f. pending_rejection f = None"])
    show "resolves (or_promise c1 (clickByText_not_awaited E ''a,button'' ''View Cart''))"
      by (rule resolves_or_promise)
  next
    fix w x w'
    assume "or_promise c1 (clickByText_not_awaited E ''a,button'' ''View Cart'') w = (Inr x, w')"
    with assms show "pending_rejection x = None" by (rule or_promise_not_rejected)
  next
    fix x
    assume "pending_rejection x = None"
    with assms show "resolves
       (bind (if \<not> flag_truthy x then goto_caught E (Resolved ''/actions/Cart.action'') else return ())
          (\<lambda>_. bind (await_while_pending E x (waitForNavigation_caught E 8000))
                 (\<lambda>_. sleep E 1000)))"
      by (auto intro!: resolves_intros resolves_await_while_pending)
  qed
qed (rule resolves_clickByText [OF assms])

lemma resolves_checkout_action:
  assumes "rejects_only tolerated E"
  shows "resolves (checkout_action E)"
  unfolding checkout_action_def
proof (rule resolves_bind)
  fix c1
  show "resolves
     (bind (or_promise c1 (clickByText_not_awaited E ''a,button'' ''Proceed''))
        (\<lambda>clicked. bind (if \<not> flag_truthy clicked then evaluate E ClickCheckoutButton (click_checkout_button E) else return ())
          (\<lambda>_. bind (await_while_pending E clicked (waitForNavigation_caught E 8000))
                 (\<lambda>_. sleep E 1000))))"
  proof (rule resolves_bind_post [where Q = "\<lambda>f. pending_rejection f = None"])
    show "resolves (or_promise c1 (clickByText_not_awaited E ''a,button'' ''Proceed''))"
      by (rule resolves_or_promise)
  next
    fix w x w'
    assume "or_promise c1 (clickByText_not_awaited E ''a,button'' ''Proceed'') w = (Inr x, w')"
    with assms show "pending_rejection x = None" by (rule or_promise_not_rejected)
  next
    fix x
    assume "pending_rejection x = None"
    with assms show "resolves
       (bind (if \<not> flag_truthy x then evaluate E ClickCheckoutButton (click_checkout_button E) else return ())
          (\<lambda>_. bind (await_while_pending E x (waitForNavigation_caught E 8000))
                 (\<lambda>_. sleep E 1000)))"
      unfolding evaluate_def click_checkout_button_def querySelectorAll_def
      by (auto intro!: resolves_intros resolves_await_while_pending
            resolves_perform [where T = tolerated] resolves_request [where T = tolerated]
            split: option.splits)
  qed
qed (rule resolves_clickByText [OF assms])

lemma resolves_logout_action:
  assumes "rejects_only tolerated E"
  shows "resolves (logout_action E)"
  unfolding logout_action_def
proof (rule resolves_bind)
  fix c1
  show "resolves
     (bind (or_promise c1 (clickByText_not_awaited E ''a,button'' ''Logout''))
        (\<lambda>clicked. bind (if \<not> flag_truthy clicked then goto_caught E (Resolved ''/actions/Account.action?signoff='') else return ())
          (\<lambda>_. bind (await_while_pending E clicked (waitForNavigation_caught E 8000))
                 (\<lambda>_. sleep E 1000))))"
  proof (rule resolves_bind_post [where Q = "\<lambda>f. pending_rejection f = None"])
    show "resolves (or_promise c1 (clickByText_not_awaited E ''a,button'' ''Logout''))"
      by (rule resolves_or_promise)
  next
    fix w x w'
    assume "or_promise c1 (clickByText_not_awaited E ''a,button'' ''Logout'') w = (Inr x, w')"
    with assms show "pending_rejection x = None" by (rule or_promise_not_rejected)
  next
    fix x
    assume "pending_rejection x = None"
    with assms show "resolves
       (bind (if \<not> flag_truthy x then goto_caught E (Resolved ''/actions/Account.action?signoff='') else return ())
          (\<lambda>_. bind (await_while_pending E x (waitForNavigation_caught E 8000))
                 (\<lambda>_. sleep E 1000)))"
      by (auto intro!: resolves_intros resolves_await_while_pending)
  qed
qed (rule resolves_clickByText [OF assms])
section \<open>The trace transaction\<close>

lemma emits_before_action: "emits (\<lambda>c. \<not> sampling c) (before_action E opts)"
  unfolding before_action_def by (auto intro!: emits_intros)

lemma emits_after_action_rest:
  "emits (\<lambda>c. True)
     (bind (request E TracingStop (\<lambda>h. trace_buffer E h)) (\<lambda>buffer.
      bind (request E ParseRawTraceBuffer (\<lambda>h. parse_result E h buffer)) (\<lambda>parsed.
      bind (summary_of E parsed) (\<lambda>summary.
      bind (now E) (\<lambda>t.
      bind (save E (SummaryFile t (replace_whitespace name)) (SummaryText summary)) (\<lambda>file.
      return \<lparr>tr_parsed = parsed, tr_summary = summary, tr_file = file\<rparr>))))))"
  unfolding summary_of_def save_def
  by (auto intro!: emits_intros split: option.splits)

lemma list_all_started:
  "list_all (\<lambda>e. True \<and> t \<le> started e) es \<Longrightarrow> list_all (\<lambda>e. (t::nat) \<le> started e) es"
  by (induction es) auto

text \<open>
  From any state, what follows the action begins with the timer of 2500 ms, and every
  later call of the transaction is issued after the timer has fired.
\<close>

lemma after_action_timer:
  "\<exists>f es. history (snd (after_action E name w))
            = history w @ \<lparr>call = SetTimeout 2500, started = clock w, finished = f\<rparr> # es
     \<and> clock w + 2500 \<le> f \<and> list_all (\<lambda>e. f \<le> started e) es"
proof -
  let ?f = "clock w + (2500 + takes E (history w) (SetTimeout 2500))"
  let ?timer = "\<lparr>call = SetTimeout 2500, started = clock w, finished = ?f\<rparr>"
  let ?w1 = "\<lparr>history = history w @ [?timer], clock = ?f\<rparr>"
  let ?rest = "bind (request E TracingStop (\<lambda>h. trace_buffer E h)) (\<lambda>buffer.
      bind (request E ParseRawTraceBuffer (\<lambda>h. parse_result E h buffer)) (\<lambda>parsed.
      bind (summary_of E parsed) (\<lambda>summary.
      bind (now E) (\<lambda>t.
      bind (save E (SummaryFile t (replace_whitespace name)) (SummaryText summary)) (\<lambda>file.
      return \<lparr>tr_parsed = parsed, tr_summary = summary, tr_file = file\<rparr>)))))"
  have "after_action E name w = ?rest ?w1"
    unfolding after_action_def by (simp add: bind_def sleep_apply)
  moreover obtain es where "history (snd (?rest ?w1)) = history ?w1 @ es"
    and "list_all (\<lambda>e. True \<and> clock ?w1 \<le> started e) es"
    using emits_after_action_rest by (rule emitsD)
  ultimately have "history (snd (after_action E name w)) = history w @ ?timer # es"
    and "list_all (\<lambda>e. ?f \<le> started e) es"
    by (simp_all add: list_all_started)
  then show ?thesis by (intro exI [of _ ?f] exI [of _ es]) simp
qed

lemma never_rejected: "rejects_only T E \<Longrightarrow> \<not> T c \<Longrightarrow> rejects E h c = None"
  unfolding rejects_only_def by blast

lemma after_action_completes:
  assumes "rejects_only tolerated E"
  shows "\<exists>res. fst (after_action E name w) = Inr res
     \<and> (\<exists>es. map call (appended w (snd (after_action E name w)))
            = SetTimeout 2500 # TracingStop # ParseRawTraceBuffer # es
              @ [WriteFile (tr_file res) (SummaryText (tr_summary res))])"
proof -
  have r: "\<And>h. rejects E h TracingStop = None" "\<And>h. rejects E h ParseRawTraceBuffer = None"
    "\<And>h. rejects E h GetTraceSummary = None" "\<And>h f c. rejects E h (WriteFile f c) = None"
    using assms by (simp_all add: never_rejected)
  show ?thesis
    unfolding after_action_def appended_def summary_of_def save_def perform_def
    by (simp add: bind_def sleep_apply request_apply now_def return_def r
          split: option.splits)
qed

lemma appended_append: "history w' = history w @ es \<Longrightarrow> appended w w' = es"
  by (simp add: appended_def)

lemma transaction_sampling_late:
  assumes b: "emits (\<lambda>c. \<not> sampling c) before"
    and a: "emits (\<lambda>c. \<not> sampling c) actionFn"
    and t: "\<And>w. \<exists>f es. history (snd (after w))
              = history w @ \<lparr>call = SetTimeout 2500, started = clock w, finished = f\<rparr> # es
            \<and> clock w + 2500 \<le> f \<and> list_all (\<lambda>e. f \<le> started e) es"
  shows "list_all (\<lambda>e. sampling (call e) \<longrightarrow>
            clock (snd (actionFn (snd (before w)))) + 2500 \<le> started e)
          (appended w (snd (bind before (\<lambda>_. bind actionFn (\<lambda>_. after)) w)))"
proof -
  define w1 where "w1 = snd (before w)"
  define w2 where "w2 = snd (actionFn w1)"
  define late where "late = (\<lambda>e::entry. sampling (call e) \<longrightarrow> clock w2 + 2500 \<le> started e)"
  from b obtain es1 where es1: "history (snd (before w)) = history w @ es1"
      "list_all (\<lambda>e. \<not> sampling (call e) \<and> clock w \<le> started e) es1"
    by (rule emitsD)
  from a obtain es2 where es2: "history (snd (actionFn w1)) = history w1 @ es2"
      "list_all (\<lambda>e. \<not> sampling (call e) \<and> clock w1 \<le> started e) es2"
    by (rule emitsD)
  from t [of w2] obtain f es3 where es3:
      "history (snd (after w2))
         = history w2 @ \<lparr>call = SetTimeout 2500, started = clock w2, finished = f\<rparr> # es3"
      "clock w2 + 2500 \<le> f" "list_all (\<lambda>e. f \<le> started e) es3"
    by blast
  have l1: "list_all late es1" using es1(2) by (simp add: list_all_iff late_def)
  have l2: "list_all late es2" using es2(2) by (simp add: list_all_iff late_def)
  have "\<forall>e\<in>set es3. clock w2 + 2500 \<le> started e"
    using es3(2,3) by (auto simp: list_all_iff)
  then have l3: "list_all late es3" by (simp add: list_all_iff late_def)
  have h1: "history w1 = history w @ es1" using es1(1) by (simp add: w1_def)
  have h2: "history w2 = history w @ es1 @ es2" using es2(1) h1 by (simp add: w2_def)
  have h3: "history (snd (after w2))
      = history w @ es1 @ es2 @ \<lparr>call = SetTimeout 2500, started = clock w2, finished = f\<rparr> # es3"
    using es3(1) h2 by simp
  have timer: "late \<lparr>call = SetTimeout 2500, started = clock w2, finished = f\<rparr>"
    by (simp add: late_def)
  have final: "snd (bind before (\<lambda>_. bind actionFn (\<lambda>_. after)) w) = w1
      \<or> snd (bind before (\<lambda>_. bind actionFn (\<lambda>_. after)) w) = w2
      \<or> snd (bind before (\<lambda>_. bind actionFn (\<lambda>_. after)) w) = snd (after w2)"
    unfolding bind_def w1_def w2_def
    by (cases "before w"; cases "fst (before w)"; cases "actionFn (snd (before w))";
        cases "fst (actionFn (snd (before w)))") auto
  have "list_all late (appended w w1)" using h1 l1 by (simp add: appended_append)
  moreover have "list_all late (appended w w2)" using h2 l1 l2 by (simp add: appended_append)
  moreover have "list_all late (appended w (snd (after w2)))"
    using h3 l1 l2 l3 timer by (simp add: appended_append)
  ultimately have "list_all late (appended w (snd (bind before (\<lambda>_. bind actionFn (\<lambda>_. after)) w)))"
    using final by metis
  then show ?thesis by (simp add: late_def w2_def w1_def)
qed

section \<open>The trace transaction of enhanced\_perf\_test.mjs\<close>

lemma emits_before_action_enhanced: "emits (\<lambda>c. \<not> sampling c) (before_action_enhanced E opts)"
  unfolding before_action_enhanced_def by (auto intro!: emits_intros)

lemma emits_after_action_enhanced_rest:
  "emits (\<lambda>c. True)
     (bind (getPerformanceMetrics E) (\<lambda>metrics.
      bind (perform E (WriteFile (MetricsJson name) (MetricsDump metrics))) (\<lambda>_.
      bind (request E TracingStop (\<lambda>h. trace_buffer E h)) (\<lambda>buffer.
      bind (perform E (WriteFile (TraceJson name) (TraceBuffer buffer))) (\<lambda>_.
      return \<lparr>path = TraceJson name, metricsPath = MetricsJson name, traced_metrics = metrics\<rparr>)))))"
  unfolding getPerformanceMetrics_def
  by (auto intro!: emits_intros)

lemma after_action_enhanced_timer:
  "\<exists>f es. history (snd (after_action_enhanced E name w))
            = history w @ \<lparr>call = SetTimeout 2500, started = clock w, finished = f\<rparr> # es
     \<and> clock w + 2500 \<le> f \<and> list_all (\<lambda>e. f \<le> started e) es"
proof -
  let ?f = "clock w + (2500 + takes E (history w) (SetTimeout 2500))"
  let ?timer = "\<lparr>call = SetTimeout 2500, started = clock w, finished = ?f\<rparr>"
  let ?w1 = "\<lparr>history = history w @ [?timer], clock = ?f\<rparr>"
  let ?rest = "bind (getPerformanceMetrics E) (\<lambda>metrics.
      bind (perform E (WriteFile (MetricsJson name) (MetricsDump metrics))) (\<lambda>_.
      bind (request E TracingStop (\<lambda>h. trace_buffer E h)) (\<lambda>buffer.
      bind (perform E (WriteFile (TraceJson name) (TraceBuffer buffer))) (\<lambda>_.
      return \<lparr>path = TraceJson name, metricsPath = MetricsJson name, traced_metrics = metrics\<rparr>))))"
  have "after_action_enhanced E name w = ?rest ?w1"
    unfolding after_action_enhanced_def by (simp add: bind_def sleep_apply)
  moreover obtain es where "history (snd (?rest ?w1)) = history ?w1 @ es"
    and "list_all (\<lambda>e. True \<and> clock ?w1 \<le> started e) es"
    using emits_after_action_enhanced_rest by (rule emitsD)
  ultimately have "history (snd (after_action_enhanced E name w)) = history w @ ?timer # es"
    and "list_all (\<lambda>e. ?f \<le> started e) es"
    by (simp_all add: list_all_started)
  then show ?thesis by (intro exI [of _ ?f] exI [of _ es]) simp
qed

lemma after_action_enhanced_completes:
  assumes "rejects_only tolerated_enhanced E"
  shows "\<exists>res. fst (after_action_enhanced E name w) = Inr res
     \<and> (\<exists>buffer. map call (appended w (snd (after_action_enhanced E name w)))
            = [SetTimeout 2500, Evaluate ReadPerformance, PageMetrics,
               WriteFile (metricsPath res) (MetricsDump (traced_metrics res)),
               TracingStop, WriteFile (path res) (TraceBuffer buffer)])"
proof -
  have r: "\<And>h. rejects E h TracingStop = None" "\<And>h. rejects E h (Evaluate ReadPerformance) = None"
    "\<And>h. rejects E h PageMetrics = None" "\<And>h f c. rejects E h (WriteFile f c) = None"
    using assms by (simp_all add: never_rejected)
  show ?thesis
    unfolding after_action_enhanced_def appended_def getPerformanceMetrics_def perform_def
    by (simp add: bind_def sleep_apply request_apply return_def r)
qed

section \<open>The actions of main\<close>

lemmas emits_intros_enhanced = emits_intros emits_promise_all emits_promise_race

lemma emits_homepage_action: "emits acts_on_page (homepage_action E)"
  unfolding homepage_action_def by (auto intro!: emits_intros_enhanced)

lemma emits_race_or_goto: "emits acts_on_page (race_or_goto E sel u)"
  unfolding race_or_goto_def by (auto intro!: emits_intros_enhanced)

lemma emits_click_and_wait: "emits acts_on_page (click_and_wait E sel)"
  unfolding click_and_wait_def by (auto intro!: emits_intros_enhanced)

lemma emits_click_or_warn: "emits acts_on_page (click_or_warn E sel)"
  unfolding click_or_warn_def by (auto intro!: emits_intros_enhanced emits_click_and_wait)

lemma emits_click_or_goto: "emits acts_on_page (click_or_goto E sel u)"
  unfolding click_or_goto_def by (auto intro!: emits_intros_enhanced emits_click_and_wait)

lemma emits_login_enhanced: "emits acts_on_page (login_enhanced E)"
  unfolding login_enhanced_def by (auto intro!: emits_intros_enhanced emits_click_and_wait)

lemma emits_product_enhanced: "emits acts_on_page (product_enhanced E)"
  unfolding product_enhanced_def
  by (auto intro!: emits_intros_enhanced split: option.splits)

lemma resolves_homepage_action:
  "rejects_only tolerated_enhanced E \<Longrightarrow> resolves (homepage_action E)"
  unfolding homepage_action_def
  by (auto intro!: resolves_intros resolves_perform [where T = tolerated_enhanced])

lemma no_exit_click_and_wait: "no_exit (click_and_wait E sel)"
  unfolding click_and_wait_def by (intro no_exit_intros)

lemma resolves_race_or_goto:
  "rejects_only tolerated_enhanced E \<Longrightarrow> resolves (race_or_goto E sel (Resolved p))"
  unfolding race_or_goto_def
  by (rule resolves_catch)
     (auto intro!: no_exit_intros resolves_intros resolves_perform [where T = tolerated_enhanced])

lemma resolves_click_or_warn: "resolves (click_or_warn E sel)"
  unfolding click_or_warn_def
  by (intro resolves_catch no_exit_click_and_wait resolves_return)

lemma resolves_click_or_goto:
  "rejects_only tolerated_enhanced E \<Longrightarrow> resolves (click_or_goto E sel (Resolved p))"
  unfolding click_or_goto_def
  by (rule resolves_catch)
     (auto intro!: no_exit_click_and_wait resolves_intros
        resolves_perform [where T = tolerated_enhanced])

lemma resolves_login_enhanced: "resolves (login_enhanced E)"
  unfolding login_enhanced_def
  by (intro resolves_catch no_exit_intros no_exit_click_and_wait resolves_return)

lemma resolves_product_enhanced: "resolves (product_enhanced E)"
  unfolding product_enhanced_def
  by (rule resolves_catch)
     (auto intro!: no_exit_intros resolves_return split: option.splits)

section \<open>The settle delay\<close>

lemma acts_on_page_not_sampling: "acts_on_page c \<Longrightarrow> \<not> sampling c"
  by (cases c rule: sampling.cases) auto

text \<open>None of the eighteen actions of the two scripts makes a sampling call.\<close>

lemma actions_never_sample:
  "emits (\<lambda>c. \<not> sampling c) (home_action E)"
  "emits (\<lambda>c. \<not> sampling c) (sign_in_action E)"
  "emits (\<lambda>c. \<not> sampling c) (login_action E)"
  "emits (\<lambda>c. \<not> sampling c) (fish_action E)"
  "emits (\<lambda>c. \<not> sampling c) (product_action E)"
  "emits (\<lambda>c. \<not> sampling c) (add_to_cart_action E)"
  "emits (\<lambda>c. \<not> sampling c) (view_cart_action E)"
  "emits (\<lambda>c. \<not> sampling c) (checkout_action E)"
  "emits (\<lambda>c. \<not> sampling c) (logout_action E)"
  "emits (\<lambda>c. \<not> sampling c) (homepage_action E)"
  "emits (\<lambda>c. \<not> sampling c) (sign_in_enhanced E)"
  "emits (\<lambda>c. \<not> sampling c) (login_enhanced E)"
  "emits (\<lambda>c. \<not> sampling c) (fish_enhanced E)"
  "emits (\<lambda>c. \<not> sampling c) (product_enhanced E)"
  "emits (\<lambda>c. \<not> sampling c) (add_to_cart_enhanced E)"
  "emits (\<lambda>c. \<not> sampling c) (view_cart_enhanced E)"
  "emits (\<lambda>c. \<not> sampling c) (checkout_enhanced E)"
  "emits (\<lambda>c. \<not> sampling c) (logout_enhanced E)"
  unfolding sign_in_enhanced_def fish_enhanced_def add_to_cart_enhanced_def
    view_cart_enhanced_def checkout_enhanced_def logout_enhanced_def
  by (rule emits_weaken [OF emits_home_action] emits_weaken [OF emits_sign_in_action]
        emits_weaken [OF emits_login_action] emits_weaken [OF emits_fish_action]
        emits_weaken [OF emits_product_action] emits_weaken [OF emits_add_to_cart_action]
        emits_weaken [OF emits_view_cart_action] emits_weaken [OF emits_checkout_action]
        emits_weaken [OF emits_logout_action] emits_weaken [OF emits_homepage_action]
        emits_weaken [OF emits_race_or_goto] emits_weaken [OF emits_login_enhanced]
        emits_weaken [OF emits_product_enhanced] emits_weaken [OF emits_click_or_warn]
        emits_weaken [OF emits_click_or_goto],
      simp add: acts_on_page_not_sampling)+

text \<open>
  C10. For every traced step of either script, whose action makes no sampling call: every
  sampling call of the transaction (the stop of the trace; in the enhanced test also the
  reads of getPerformanceMetrics, which come first) is issued at least 2500 ms, the fixed
  settle delay, after the moment the action completed.
\<close>

theorem sampling_waits_for_settle_delay:
  assumes "emits (\<lambda>c. \<not> sampling c) actionFn"
  shows "list_all (\<lambda>e. sampling (call e) \<longrightarrow>
             clock (snd (actionFn (snd (before_action E opts w)))) + 2500 \<le> started e)
           (appended w (snd (recordTraceAround E name actionFn opts w)))
       \<and> list_all (\<lambda>e. sampling (call e) \<longrightarrow>
             clock (snd (actionFn (snd (before_action_enhanced E opts w)))) + 2500 \<le> started e)
           (appended w (snd (recordTraceAround_enhanced E name actionFn opts w)))"
  unfolding recordTraceAround_def recordTraceAround_enhanced_def
  by (intro conjI transaction_sampling_late emits_before_action emits_before_action_enhanced
        assms after_action_timer after_action_enhanced_timer)

section \<open>Runs on the example sites\<close>

lemma bare_site_fields:
  "rejects bare_site h c = None"
  "takes bare_site h c = 0"
  "nodes bare_site h sel = []"
  "handles bare_site h sel = None"
  "trace_buffer bare_site h = []"
  "parse_result bare_site h b = Some \<lparr>parsedTrace = None, error = Some ''empty''\<rparr>"
  "date_now bare_site h = 0"
  "page_metrics bare_site h = no_metrics"
  by (simp_all add: bare_site_def failing_site_def unclickable_site_def unreachable_site_def
        detached_site_def)

lemma failing_site_fields:
  "rejects failing_site h c = (case c of Goto (Resolved p) \<Rightarrow> Some ''timeout''
        | WaitForNavigation t \<Rightarrow> Some ''timeout'' | _ \<Rightarrow> None)"
  "takes failing_site h c = 0"
  "nodes failing_site h sel = []"
  "handles failing_site h sel = None"
  "trace_buffer failing_site h = []"
  "parse_result failing_site h b = Some \<lparr>parsedTrace = None, error = Some ''empty''\<rparr>"
  "date_now failing_site h = 0"
  "page_metrics failing_site h = no_metrics"
  by (simp_all add: bare_site_def failing_site_def unclickable_site_def unreachable_site_def
        detached_site_def)

lemma unclickable_site_fields:
  "rejects unclickable_site h c = (case c of PageClick sel \<Rightarrow> Some ''timeout''
        | PageType sel v \<Rightarrow> Some ''timeout'' | WaitForNavigation t \<Rightarrow> Some ''timeout'' | _ \<Rightarrow> None)"
  "takes unclickable_site h c = 0"
  "nodes unclickable_site h sel = []"
  "handles unclickable_site h sel = None"
  "trace_buffer unclickable_site h = []"
  "parse_result unclickable_site h b = Some \<lparr>parsedTrace = None, error = Some ''empty''\<rparr>"
  "date_now unclickable_site h = 0"
  "page_metrics unclickable_site h = no_metrics"
  by (simp_all add: bare_site_def failing_site_def unclickable_site_def unreachable_site_def
        detached_site_def)

lemma unreachable_site_fields:
  "rejects unreachable_site h c = (case c of Goto Base \<Rightarrow> Some ''timeout'' | _ \<Rightarrow> None)"
  "takes unreachable_site h c = 0"
  "nodes unreachable_site h sel = []"
  "handles unreachable_site h sel = None"
  "trace_buffer unreachable_site h = []"
  "parse_result unreachable_site h b = Some \<lparr>parsedTrace = None, error = Some ''empty''\<rparr>"
  "date_now unreachable_site h = 0"
  "page_metrics unreachable_site h = no_metrics"
  by (simp_all add: bare_site_def failing_site_def unclickable_site_def unreachable_site_def
        detached_site_def)

lemma detached_site_fields:
  "rejects detached_site h c
     = (if c = Evaluate (ClickByText ''a,button'' ''View Cart'') then Some ''detached'' else None)"
  "takes detached_site h c = 0"
  "nodes detached_site h sel = []"
  "handles detached_site h sel = None"
  "trace_buffer detached_site h = []"
  "parse_result detached_site h b = Some \<lparr>parsedTrace = None, error = Some ''empty''\<rparr>"
  "date_now detached_site h = 0"
  "page_metrics detached_site h = no_metrics"
  by (simp_all add: bare_site_def failing_site_def unclickable_site_def unreachable_site_def
        detached_site_def)

lemmas eval_simps =
  bind_def return_def catch_def perform_def request_apply sleep_apply now_def
  clickByText_not_awaited_def await_while_pending_def timed_out_def
  finally_do_def evaluate_def clickByText_def querySelectorAll_def querySelector_def
  typeIfExists_def goto_caught_def waitForNavigation_caught_def or_promise_def save_def
  summary_of_def before_action_def after_action_def recordTraceAround_def appended_def
  getPerformanceMetrics_def before_action_enhanced_def after_action_enhanced_def
  recordTraceAround_enhanced_def promise_all_def promise_race_def both_issued_def
  default_opts_def replace_whitespace_def is_space_def duration_of_def start_def
  bare_site_fields failing_site_fields unclickable_site_fields unreachable_site_fields
  detached_site_fields

theorem sampling_waits_for_settle_delay_witness:
  "emits (\<lambda>c. \<not> sampling c) (sign_in_action failing_site)
   \<and> list_all (\<lambda>e. sampling (call e) \<longrightarrow>
         clock (snd (sign_in_action failing_site (snd (before_action failing_site default_opts start))))
           + 2500 \<le> started e)
       (appended start
          (snd (recordTraceAround failing_site ''sign_in'' (sign_in_action failing_site)
                  default_opts start)))
   \<and> clock (snd (sign_in_action failing_site (snd (before_action failing_site default_opts start))))
       = 1000
   \<and> map (\<lambda>e. (call e, started e))
        (appended start
          (snd (recordTraceAround failing_site ''sign_in'' (sign_in_action failing_site)
                  default_opts start)))
     = [(Goto AboutBlank, 0), (TracingStart categories, 0),
        (Evaluate (ClickByText ''a,button'' ''Sign In''), 0),
        (QuerySelectorAll ''a'', 0), (QuerySelectorAll ''button'', 0),
        (Goto (Resolved ''/actions/Account.action?signonForm=''), 0),
        (SetTimeout 1000, 0), (SetTimeout 2500, 1000), (TracingStop, 3500),
        (ParseRawTraceBuffer, 3500),
        (WriteFile (SummaryFile 0 ''sign_in'') (SummaryText ''Error parsing trace: empty''), 3500)]"
proof -
  have h: "emits (\<lambda>c. \<not> sampling c) (sign_in_action failing_site)"
    by (rule actions_never_sample)
  have e: "clock (snd (sign_in_action failing_site (snd (before_action failing_site default_opts start))))
       = 1000"
    by (simp add: eval_simps sign_in_action_def)
  have l: "map (\<lambda>e. (call e, started e))
        (appended start
          (snd (recordTraceAround failing_site ''sign_in'' (sign_in_action failing_site)
                  default_opts start)))
     = [(Goto AboutBlank, 0), (TracingStart categories, 0),
        (Evaluate (ClickByText ''a,button'' ''Sign In''), 0),
        (QuerySelectorAll ''a'', 0), (QuerySelectorAll ''button'', 0),
        (Goto (Resolved ''/actions/Account.action?signonForm=''), 0),
        (SetTimeout 1000, 0), (SetTimeout 2500, 1000), (TracingStop, 3500),
        (ParseRawTraceBuffer, 3500),
        (WriteFile (SummaryFile 0 ''sign_in'') (SummaryText ''Error parsing trace: empty''), 3500)]"
    by (simp add: eval_simps sign_in_action_def)
  from sampling_waits_for_settle_delay [OF h, of failing_site default_opts start "''sign_in''"] h e l
  show ?thesis by blast
qed

section \<open>A failing action and the trace transaction\<close>

lemma transaction_aborts:
  assumes "fst (before w) = Inr u" and "fst (actionFn (snd (before w))) = Inl e"
  shows "bind before (\<lambda>_. bind actionFn (\<lambda>_. after)) w = (Inl e, snd (actionFn (snd (before w))))"
  using assms by (cases "before w"; cases "actionFn (snd (before w))") (simp add: bind_def)

lemma transaction_goes_on:
  assumes "fst (before w) = Inr u" and "fst (actionFn (snd (before w))) = Inr x"
  shows "bind before (\<lambda>_. bind actionFn (\<lambda>_. after)) w = after (snd (actionFn (snd (before w))))"
  using assms by (cases "before w"; cases "actionFn (snd (before w))") (simp add: bind_def)

text \<open>
  C8, as stated, fails: when the action itself rejects, as the home step does when the
  base URL cannot be loaded, recordTraceAround rejects at \<^verbatim>\<open>await actionFn()\<close>. Nothing
  follows the failed navigation: no settle delay, no stop of the trace, no result. Both
  scripts behave so.
\<close>

theorem failed_action_leaves_trace_running:
  "fst (recordTraceAround unreachable_site ''home'' (home_action unreachable_site)
          default_opts start) = Inl timed_out
   \<and> map call (history (snd (recordTraceAround unreachable_site ''home''
                               (home_action unreachable_site) default_opts start)))
       = [Goto AboutBlank, TracingStart categories, Goto Base]
   \<and> fst (recordTraceAround_enhanced unreachable_site ''homepage''
            (homepage_action unreachable_site) default_opts start) = Inl timed_out
   \<and> map call (history (snd (recordTraceAround_enhanced unreachable_site ''homepage''
                               (homepage_action unreachable_site) default_opts start)))
       = [Goto AboutBlank, TracingStart categories_enhanced, Goto Base]"
  by (simp add: eval_simps home_action_def homepage_action_def)

text \<open>
  C8, amended. For every traced step of either script whose trace was started: if the
  action function returns, whatever failed inside it and was handled there, and the
  environment rejects only calls whose rejection the script swallows, then the
  transaction goes on to the settle delay, the stop of the trace, the decoding and the
  summary file (in the enhanced test: the sampling of the metrics, their file, the stop of
  the trace and the trace file) and returns its result. If the action function rejects,
  the transaction rejects with the same error and makes no further call.
\<close>

theorem transaction_completes_when_action_returns:
  "(fst (before_action E opts w) = Inr u \<longrightarrow>
      (fst (actionFn (snd (before_action E opts w))) = Inl e \<longrightarrow>
         fst (recordTraceAround E name actionFn opts w) = Inl e
         \<and> snd (recordTraceAround E name actionFn opts w)
             = snd (actionFn (snd (before_action E opts w))))
      \<and> (fst (actionFn (snd (before_action E opts w))) = Inr x \<and> rejects_only tolerated E \<longrightarrow>
         (\<exists>res. fst (recordTraceAround E name actionFn opts w) = Inr res
            \<and> (\<exists>es. map call (appended (snd (actionFn (snd (before_action E opts w))))
                                (snd (recordTraceAround E name actionFn opts w)))
                 = SetTimeout 2500 # TracingStop # ParseRawTraceBuffer # es
                   @ [WriteFile (tr_file res) (SummaryText (tr_summary res))]))))
   \<and> (fst (before_action_enhanced E opts w) = Inr u \<longrightarrow>
      (fst (actionFn (snd (before_action_enhanced E opts w))) = Inl e \<longrightarrow>
         fst (recordTraceAround_enhanced E name actionFn opts w) = Inl e
         \<and> snd (recordTraceAround_enhanced E name actionFn opts w)
             = snd (actionFn (snd (before_action_enhanced E opts w))))
      \<and> (fst (actionFn (snd (before_action_enhanced E opts w))) = Inr x
           \<and> rejects_only tolerated_enhanced E \<longrightarrow>
         (\<exists>res. fst (recordTraceAround_enhanced E name actionFn opts w) = Inr res
            \<and> (\<exists>buffer. map call (appended (snd (actionFn (snd (before_action_enhanced E opts w))))
                                (snd (recordTraceAround_enhanced E name actionFn opts w)))
                 = [SetTimeout 2500, Evaluate ReadPerformance, PageMetrics,
                    WriteFile (metricsPath res) (MetricsDump (traced_metrics res)),
                    TracingStop, WriteFile (path res) (TraceBuffer buffer)]))))"
proof (intro conjI impI)
  assume "fst (before_action E opts w) = Inr u"
    and "fst (actionFn (snd (before_action E opts w))) = Inl e"
  then have "recordTraceAround E name actionFn opts w
      = (Inl e, snd (actionFn (snd (before_action E opts w))))"
    unfolding recordTraceAround_def by (rule transaction_aborts)
  then show "fst (recordTraceAround E name actionFn opts w) = Inl e"
    and "snd (recordTraceAround E name actionFn opts w)
             = snd (actionFn (snd (before_action E opts w)))"
    by simp_all
next
  assume b: "fst (before_action E opts w) = Inr u"
    and a: "fst (actionFn (snd (before_action E opts w))) = Inr x \<and> rejects_only tolerated E"
  from b a have "recordTraceAround E name actionFn opts w
      = after_action E name (snd (actionFn (snd (before_action E opts w))))"
    unfolding recordTraceAround_def by (intro transaction_goes_on) simp_all
  with a after_action_completes [of E name "snd (actionFn (snd (before_action E opts w)))"]
  show "\<exists>res. fst (recordTraceAround E name actionFn opts w) = Inr res
            \<and> (\<exists>es. map call (appended (snd (actionFn (snd (before_action E opts w))))
                                (snd (recordTraceAround E name actionFn opts w)))
                 = SetTimeout 2500 # TracingStop # ParseRawTraceBuffer # es
                   @ [WriteFile (tr_file res) (SummaryText (tr_summary res))])"
    by simp
next
  assume "fst (before_action_enhanced E opts w) = Inr u"
    and "fst (actionFn (snd (before_action_enhanced E opts w))) = Inl e"
  then have "recordTraceAround_enhanced E name actionFn opts w
      = (Inl e, snd (actionFn (snd (before_action_enhanced E opts w))))"
    unfolding recordTraceAround_enhanced_def by (rule transaction_aborts)
  then show "fst (recordTraceAround_enhanced E name actionFn opts w) = Inl e"
    and "snd (recordTraceAround_enhanced E name actionFn opts w)
             = snd (actionFn (snd (before_action_enhanced E opts w)))"
    by simp_all
next
  assume b: "fst (before_action_enhanced E opts w) = Inr u"
    and a: "fst (actionFn (snd (before_action_enhanced E opts w))) = Inr x
           \<and> rejects_only tolerated_enhanced E"
  from b a have "recordTraceAround_enhanced E name actionFn opts w
      = after_action_enhanced E name (snd (actionFn (snd (before_action_enhanced E opts w))))"
    unfolding recordTraceAround_enhanced_def by (intro transaction_goes_on) simp_all
  with a after_action_enhanced_completes
         [of E name "snd (actionFn (snd (before_action_enhanced E opts w)))"]
  show "\<exists>res. fst (recordTraceAround_enhanced E name actionFn opts w) = Inr res
            \<and> (\<exists>buffer. map call (appended (snd (actionFn (snd (before_action_enhanced E opts w))))
                                (snd (recordTraceAround_enhanced E name actionFn opts w)))
                 = [SetTimeout 2500, Evaluate ReadPerformance, PageMetrics,
                    WriteFile (metricsPath res) (MetricsDump (traced_metrics res)),
                    TracingStop, WriteFile (path res) (TraceBuffer buffer)])"
    by simp
qed

lemma failing_site_tolerated: "rejects_only tolerated failing_site"
  unfolding rejects_only_def failing_site_fields
  by (auto split: call.splits url.splits)

lemma unclickable_site_tolerated: "rejects_only tolerated_enhanced unclickable_site"
  unfolding rejects_only_def unclickable_site_fields
  by (auto split: call.splits url.splits)

theorem transaction_completes_when_action_returns_witness:
  "fst (before_action failing_site default_opts start) = Inr ()
   \<and> fst (sign_in_action failing_site (snd (before_action failing_site default_opts start))) = Inr ()
   \<and> rejects_only tolerated failing_site
   \<and> Goto (Resolved ''/actions/Account.action?signonForm='')
       \<in> set (map call (history (snd (sign_in_action failing_site
                (snd (before_action failing_site default_opts start))))))
   \<and> rejects failing_site [] (Goto (Resolved ''/actions/Account.action?signonForm='')) = Some ''timeout''
   \<and> (\<exists>res. fst (recordTraceAround failing_site ''sign_in'' (sign_in_action failing_site)
                    default_opts start) = Inr res
        \<and> (\<exists>es. map call (appended (snd (sign_in_action failing_site
                                (snd (before_action failing_site default_opts start))))
                    (snd (recordTraceAround failing_site ''sign_in'' (sign_in_action failing_site)
                            default_opts start)))
              = SetTimeout 2500 # TracingStop # ParseRawTraceBuffer # es
                @ [WriteFile (tr_file res) (SummaryText (tr_summary res))]))
   \<and> fst (before_action_enhanced unclickable_site default_opts start) = Inr ()
   \<and> fst (login_enhanced unclickable_site
            (snd (before_action_enhanced unclickable_site default_opts start))) = Inr ()
   \<and> (\<exists>res. fst (recordTraceAround_enhanced unclickable_site ''login''
                    (login_enhanced unclickable_site) default_opts start) = Inr res)"
proof -
  have b: "fst (before_action failing_site default_opts start) = Inr ()"
    by (simp add: eval_simps)
  have a: "fst (sign_in_action failing_site (snd (before_action failing_site default_opts start))) = Inr ()"
    by (simp add: eval_simps sign_in_action_def)
  have g: "Goto (Resolved ''/actions/Account.action?signonForm='')
       \<in> set (map call (history (snd (sign_in_action failing_site
                (snd (before_action failing_site default_opts start))))))"
    by (simp add: eval_simps sign_in_action_def)
  have r: "rejects failing_site [] (Goto (Resolved ''/actions/Account.action?signonForm='')) = Some ''timeout''"
    by (simp add: failing_site_fields)
  have b': "fst (before_action_enhanced unclickable_site default_opts start) = Inr ()"
    by (simp add: eval_simps)
  have a': "fst (login_enhanced unclickable_site
            (snd (before_action_enhanced unclickable_site default_opts start))) = Inr ()"
    by (simp add: eval_simps login_enhanced_def)
  from transaction_completes_when_action_returns
         [of failing_site default_opts start "()" "sign_in_action failing_site" timed_out
             "''sign_in''" "()"]
       transaction_completes_when_action_returns
         [of unclickable_site default_opts start "()" "login_enhanced unclickable_site" timed_out
             "''login''" "()"]
       b a g r b' a' failing_site_tolerated unclickable_site_tolerated
  show ?thesis by blast
qed

section \<open>The action executor\<close>

lemma nodes_loop_no_match:
  "list_all (\<lambda>n. \<not> text_matches n txt) ns \<Longrightarrow> nodes_loop E txt ns w = (Inr False, w)"
  by (induction ns) (simp_all add: return_def)

text \<open>
  clickByText returns \<^verbatim>\<open>false\<close> when no node of any selector has the text and none of its
  calls is rejected; a rejection of \<^verbatim>\<open>page.evaluate\<close> itself leaves clickByText.
\<close>

lemma sels_loop_no_match:
  assumes "\<And>h sel. list_all (\<lambda>n. \<not> text_matches n txt) (nodes E h sel)"
    and "\<And>h sel. rejects E h (QuerySelectorAll sel) = None"
  shows "fst (sels_loop E txt sels w) = Inr False"
proof (induction sels arbitrary: w)
  case Nil
  show ?case by (simp add: return_def)
next
  case (Cons sel sels)
  show ?case
    by (simp add: bind_def querySelectorAll_def request_apply assms nodes_loop_no_match Cons.IH)
qed

lemma clickByText_no_match:
  assumes "\<And>h sel. list_all (\<lambda>n. \<not> text_matches n txt) (nodes E h sel)"
    and "\<And>h sel. rejects E h (QuerySelectorAll sel) = None"
    and "\<And>h. rejects E h (Evaluate (ClickByText sl txt)) = None"
  shows "fst (clickByText E sl txt w) = Inr False"
  unfolding clickByText_def evaluate_def perform_def
  by (simp add: bind_def request_apply assms sels_loop_no_match)

lemma clickByText_evaluate_rejected:
  "rejects E (history w) (Evaluate (ClickByText sl txt)) = Some msg \<Longrightarrow>
   fst (clickByText E sl txt w) = Inl (Rejection msg)"
  unfolding clickByText_def evaluate_def perform_def
  by (simp add: bind_def request_apply)

text \<open>typeIfExists signals every failure by its value: it never rejects.\<close>

lemma typeIfExists_returns: "\<exists>typed. fst (typeIfExists E selector val w) = Inr typed"
  using resolves_typeIfExists unfolding resolves_def by blast

lemma typeIfExists_missing_element:
  "handles E (history w) selector = None \<Longrightarrow> fst (typeIfExists E selector val w) = Inr False"
  unfolding typeIfExists_def perform_def
  by (simp add: catch_def bind_def request_apply return_def split: option.splits)

text \<open>
  C9 at its failing input. In the steps view\_cart, checkout and logout the chain is
  written \<^verbatim>\<open>await a() || b() || c()\<close>: when the first click finds nothing, \<^verbatim>\<open>b()\<close> is
  issued without being awaited, its promise is truthy, and the fallback under
  \<^verbatim>\<open>if (!clicked)\<close> (the direct navigation; in checkout the in-page search for a button)
  is never attempted, in any environment. On a site where no link has the text, view\_cart
  issues the first click and awaits it, issues the second and goes on at once to wait for
  a navigation, during which the page function of the second click runs; it makes no
  navigation of its own, whereas sign\_in, which awaits its single click, does navigate.
\<close>

theorem unawaited_click_hides_the_fallback:
  "emits (\<lambda>c. \<not> is_goto c) (view_cart_action E)
   \<and> emits (\<lambda>c. \<not> is_goto c) (logout_action E)
   \<and> emits (\<lambda>c. c \<noteq> Evaluate ClickCheckoutButton) (checkout_action E)
   \<and> map call (history (snd (view_cart_action bare_site start)))
       = [Evaluate (ClickByText ''a,button'' ''Cart''), QuerySelectorAll ''a'',
          QuerySelectorAll ''button'', Evaluate (ClickByText ''a,button'' ''View Cart''),
          WaitForNavigation (Some 8000), QuerySelectorAll ''a'', QuerySelectorAll ''button'',
          SetTimeout 1000]
   \<and> map call (history (snd (sign_in_action bare_site start)))
       = [Evaluate (ClickByText ''a,button'' ''Sign In''), QuerySelectorAll ''a'',
          QuerySelectorAll ''button'', Goto (Resolved ''/actions/Account.action?signonForm=''),
          SetTimeout 1000]"
proof (intro conjI)
  show "emits (\<lambda>c. \<not> is_goto c) (view_cart_action E)"
    by (rule emits_weaken [OF emits_view_cart_action]) simp
  show "emits (\<lambda>c. \<not> is_goto c) (logout_action E)"
    by (rule emits_weaken [OF emits_logout_action]) simp
  show "emits (\<lambda>c. c \<noteq> Evaluate ClickCheckoutButton) (checkout_action E)"
    by (rule emits_weaken [OF emits_checkout_action]) simp
qed (simp_all add: eval_simps view_cart_action_def sign_in_action_def)

text \<open>
  Nothing handles the promise of the second click. When \<^verbatim>\<open>page.evaluate\<close> rejects for it,
  the process ends while the script waits for the navigation: the step makes no further
  call, the transaction does not stop its trace, and \<open>run\<close> does not close the browser.
\<close>

lemma unawaited_click_rejection_ends_the_process:
  "fst (view_cart_action detached_site start) = Inl (UnhandledRejection (Rejection ''detached''))
   \<and> map call (history (snd (view_cart_action detached_site start)))
       = [Evaluate (ClickByText ''a,button'' ''Cart''), QuerySelectorAll ''a'',
          QuerySelectorAll ''button'', Evaluate (ClickByText ''a,button'' ''View Cart''),
          WaitForNavigation (Some 8000)]
   \<and> fst (recordTraceAround detached_site ''view_cart'' (view_cart_action detached_site)
            default_opts start) = Inl (UnhandledRejection (Rejection ''detached''))
   \<and> TracingStop \<notin> set (map call (history (snd
         (recordTraceAround detached_site ''view_cart'' (view_cart_action detached_site)
            default_opts start))))
   \<and> fst (finally_do (view_cart_action detached_site)
            (catch (perform detached_site BrowserClose) (\<lambda>e. return ())) start)
       = Inl (UnhandledRejection (Rejection ''detached''))
   \<and> BrowserClose \<notin> set (map call (history (snd
         (finally_do (view_cart_action detached_site)
            (catch (perform detached_site BrowserClose) (\<lambda>e. return ())) start))))"
  by (simp add: eval_simps view_cart_action_def)

text \<open>The login step awaits each click of its chain, and reaches its fallback.\<close>

lemma login_reaches_its_fallback:
  "map call (history (snd (login_action bare_site start)))
     = [Query ''input[name=\"username\"], input[id=\"username\"], input[name=\"userid\"]'',
        Query ''input[name=\"password\"], input[id=\"password\"]'',
        Evaluate (ClickByText ''input[type=\"submit\"], button'' ''Login''),
        QuerySelectorAll ''input[type=\"submit\"]'', QuerySelectorAll '' button'',
        Evaluate (ClickByText ''input[type=\"submit\"], button'' ''Sign In''),
        QuerySelectorAll ''input[type=\"submit\"]'', QuerySelectorAll '' button'',
        Evaluate (ClickByText ''button'' ''Submit''), QuerySelectorAll ''button'',
        Evaluate SubmitForm, QuerySelector ''form'',
        WaitForNavigation (Some 10000), SetTimeout 1000]"
  by (simp add: eval_simps login_action_def submit_form_def)

section \<open>The scenario runner\<close>

lemma finally_do_InrE:
  assumes "finally_do m f w = (Inr r, w')"
  obtains w1 where "m w = (Inr r, w1)" and "w' = snd (f w1)"
  using assms unfolding finally_do_def
  by (cases "m w") (auto split: sum.splits exn.splits)

lemma save_history:
  assumes "save E f c w = (Inr x, w')"
  shows "map call (history w') = map call (history w) @ [WriteFile f c]"
  using assms unfolding save_def perform_def
  by (auto simp: bind_def request_apply return_def split: option.splits)

lemma perform_history:
  assumes "perform E c w = (r, w')"
  shows "map call (history w') = map call (history w) @ [c]"
  using assms unfolding perform_def by (auto simp: request_apply)

lemma emits_history_grows:
  assumes "emits P m"
  shows "set (history w) \<subseteq> set (history (snd (m w)))"
  using assms by (metis emitsD set_append sup_ge1)

text \<open>When the scenario returns, its report has the nine steps and has been written.\<close>

lemma scenario_shape:
  assumes "scenario E w = (Inr report, w')"
  shows "map step report = scenario_steps
    \<and> (\<exists>t cs. map call (history w')
           = cs @ [WriteFile (FinalReportFile t) (FinalReportText (map block_of report))])"
  using assms unfolding scenario_def Let_def
  by (elim bind_InrE)
     (auto simp: return_def push_def scenario_steps_def dest!: save_history)

lemma member_of_decomposition: "xs = cs @ x # ds \<Longrightarrow> x \<in> set xs"
  by simp

lemma run_shape:
  assumes "fst (run E w) = Inr report"
  shows "map step report = scenario_steps"
    and "\<exists>t. WriteFile (FinalReportFile t) (FinalReportText (map block_of report))
             \<in> set (map call (history (snd (run E w))))"
proof -
  from assms have "run E w = (Inr report, snd (run E w))" by (rule pair_of_fst)
  then obtain w2 w3 where sc: "scenario E w2 = (Inr report, w3)"
    and fin: "snd (run E w) = snd (catch (perform E BrowserClose) (\<lambda>e. return ()) w3)"
    unfolding run_def by (elim bind_InrE finally_do_InrE)
  from scenario_shape [OF sc] show "map step report = scenario_steps" by simp
  from scenario_shape [OF sc] obtain t cs where
    cs: "map call (history w3)
           = cs @ [WriteFile (FinalReportFile t) (FinalReportText (map block_of report))]"
    by blast
  have "emits (\<lambda>c. True) (catch (perform E BrowserClose) (\<lambda>e. return ()))"
    by (auto intro!: emits_intros)
  then obtain es where "history (snd (run E w)) = history w3 @ es"
    unfolding fin by (rule emitsD)
  then have "map call (history (snd (run E w)))
      = cs @ WriteFile (FinalReportFile t) (FinalReportText (map block_of report)) # map call es"
    using cs by simp
  then have "WriteFile (FinalReportFile t) (FinalReportText (map block_of report))
      \<in> set (map call (history (snd (run E w))))"
    by (rule member_of_decomposition)
  then show "\<exists>t. WriteFile (FinalReportFile t) (FinalReportText (map block_of report))
             \<in> set (map call (history (snd (run E w))))" ..
qed

lemma main_shape_pair:
  assumes "main E w = (Inr report, w')"
  shows "map step_name report = scenario_steps_enhanced
    \<and> (\<exists>cs. map call (history w')
           = cs @ WriteFile ReportJson (ReportDump (map dump_of report)) # [BrowserClose])"
  using assms unfolding main_def Let_def
  by (elim bind_InrE)
     (auto simp: return_def push_traced_def scenario_steps_enhanced_def dest!: perform_history)

lemma main_shape:
  assumes "fst (main E w) = Inr report"
  shows "map step_name report = scenario_steps_enhanced"
    and "WriteFile ReportJson (ReportDump (map dump_of report))
           \<in> set (map call (history (snd (main E w))))"
proof -
  from assms have m: "main E w = (Inr report, snd (main E w))" by (rule pair_of_fst)
  from main_shape_pair [OF m] show "map step_name report = scenario_steps_enhanced" by simp
  from main_shape_pair [OF m] obtain cs where
    "map call (history (snd (main E w)))
       = cs @ WriteFile ReportJson (ReportDump (map dump_of report)) # [BrowserClose]"
    by blast
  then show "WriteFile ReportJson (ReportDump (map dump_of report))
           \<in> set (map call (history (snd (main E w))))"
    by (rule member_of_decomposition)
qed

lemma resolves_recordTraceAround:
  assumes "rejects_only tolerated E" and "resolves actionFn"
  shows "resolves (recordTraceAround E name actionFn opts)"
proof -
  have "resolves (after_action E name)"
    using after_action_completes [OF assms(1)] by (intro resolvesI) blast
  moreover have "resolves (before_action E opts)"
    unfolding before_action_def
    by (auto intro!: resolves_intros resolves_catch no_exit_perform
          resolves_perform [where T = tolerated] assms(1))
  ultimately show ?thesis
    unfolding recordTraceAround_def by (intro resolves_bind assms(2))
qed

lemma resolves_recordTraceAround_enhanced:
  assumes "rejects_only tolerated_enhanced E" and "resolves actionFn"
  shows "resolves (recordTraceAround_enhanced E name actionFn opts)"
proof -
  have "resolves (after_action_enhanced E name)"
    using after_action_enhanced_completes [OF assms(1)] by (intro resolvesI) blast
  moreover have "resolves (before_action_enhanced E opts)"
    unfolding before_action_enhanced_def
    by (auto intro!: resolves_intros resolves_catch no_exit_perform
          resolves_perform [where T = tolerated_enhanced] assms(1))
  ultimately show ?thesis
    unfolding recordTraceAround_enhanced_def by (intro resolves_bind assms(2))
qed

lemma resolves_run:
  assumes "rejects_only tolerated E"
  shows "resolves (run E)"
  unfolding run_def scenario_def ensureOut_def save_def Let_def
  by (intro resolves_bind resolves_finally_do resolves_recordTraceAround resolves_now
        resolves_return resolves_perform [where T = tolerated] assms
        resolves_home_action resolves_sign_in_action resolves_login_action resolves_fish_action
        resolves_product_action resolves_add_to_cart_action resolves_view_cart_action
        resolves_checkout_action resolves_logout_action)
     simp_all

lemma resolves_main:
  assumes "rejects_only tolerated_enhanced E"
  shows "resolves (main E)"
  unfolding main_def ensureOut_def Let_def sign_in_enhanced_def fish_enhanced_def
    add_to_cart_enhanced_def view_cart_enhanced_def checkout_enhanced_def logout_enhanced_def
  by (intro resolves_bind resolves_recordTraceAround_enhanced resolves_return
        resolves_perform [where T = tolerated_enhanced] assms
        resolves_homepage_action resolves_race_or_goto resolves_login_enhanced
        resolves_product_enhanced resolves_click_or_warn resolves_click_or_goto)
     simp_all

text \<open>
  C1, as stated, fails: when the base URL cannot be loaded the home step rejects, \<open>run\<close>
  closes the browser and rejects, and the script exits with status 1. No step contributes
  an entry, no later step is run and no report is written. The enhanced test does the
  same, without closing the browser.
\<close>

theorem failed_home_step_ends_the_run:
  "fst (run unreachable_site start) = Inl timed_out
   \<and> map call (history (snd (run unreachable_site start)))
       = [Mkdir, Launch, McpContextFrom, NewPage, Goto AboutBlank, TracingStart categories,
          Goto Base, BrowserClose]
   \<and> fst (main unreachable_site start) = Inl timed_out
   \<and> map call (history (snd (main unreachable_site start)))
       = [Mkdir, Launch, NewPage, SetViewport, EvaluateOnNewDocument, Goto AboutBlank,
          TracingStart categories_enhanced, Goto Base]"
  by (simp add: eval_simps run_def scenario_def main_def ensureOut_def home_action_def
        homepage_action_def)

text \<open>
  C1, amended. Whenever a run of either script returns, its report holds exactly one
  entry per step of the fixed scenario, in execution order, and that report has been
  written. A run returns whenever the environment rejects only calls whose rejection the
  script swallows (for \<open>run\<close>: the reset to \<^verbatim>\<open>about:blank\<close>, the fallback navigations, the
  waits for a navigation, what typeIfExists does; for \<open>main\<close>: the reset, clicks, typing
  and waits inside the \<^verbatim>\<open>try\<close> blocks), however many steps fail in that way.
\<close>

theorem report_has_one_entry_per_step:
  "(fst (run E w) = Inr report \<longrightarrow>
      map step report = scenario_steps
      \<and> (\<exists>t. WriteFile (FinalReportFile t) (FinalReportText (map block_of report))
             \<in> set (map call (history (snd (run E w))))))
   \<and> (rejects_only tolerated E \<longrightarrow> (\<exists>report. fst (run E w) = Inr report))
   \<and> (fst (main E w) = Inr traced_report \<longrightarrow>
      map step_name traced_report = scenario_steps_enhanced
      \<and> WriteFile ReportJson (ReportDump (map dump_of traced_report))
           \<in> set (map call (history (snd (main E w)))))
   \<and> (rejects_only tolerated_enhanced E \<longrightarrow> (\<exists>report. fst (main E w) = Inr report))"
proof (intro conjI impI)
  assume "rejects_only tolerated E"
  then show "\<exists>report. fst (run E w) = Inr report"
    using resolves_run unfolding resolves_def by blast
next
  assume "rejects_only tolerated_enhanced E"
  then show "\<exists>report. fst (main E w) = Inr report"
    using resolves_main unfolding resolves_def by blast
next
  assume "fst (run E w) = Inr report"
  then show "map step report = scenario_steps"
    and "\<exists>t. WriteFile (FinalReportFile t) (FinalReportText (map block_of report))
             \<in> set (map call (history (snd (run E w))))"
    by (rule run_shape)+
next
  assume "fst (main E w) = Inr traced_report"
  then show "map step_name traced_report = scenario_steps_enhanced"
    and "WriteFile ReportJson (ReportDump (map dump_of traced_report))
           \<in> set (map call (history (snd (main E w))))"
    by (rule main_shape)+
qed

theorem report_has_one_entry_per_step_witness:
  "rejects_only tolerated failing_site
   \<and> (\<exists>report. fst (run failing_site start) = Inr report
         \<and> map step report = scenario_steps
         \<and> (\<exists>t. WriteFile (FinalReportFile t) (FinalReportText (map block_of report))
               \<in> set (map call (history (snd (run failing_site start))))))
   \<and> rejects_only tolerated_enhanced unclickable_site
   \<and> (\<exists>report. fst (main unclickable_site start) = Inr report
         \<and> map step_name report = scenario_steps_enhanced
         \<and> WriteFile ReportJson (ReportDump (map dump_of report))
               \<in> set (map call (history (snd (main unclickable_site start)))))"
proof -
  from report_has_one_entry_per_step [of failing_site start] failing_site_tolerated
  obtain r1 where r1: "fst (run failing_site start) = Inr r1" by blast
  from report_has_one_entry_per_step [of unclickable_site start] unclickable_site_tolerated
  obtain r2 where r2: "fst (main unclickable_site start) = Inr r2" by blast
  from report_has_one_entry_per_step [of failing_site start r1]
       report_has_one_entry_per_step [of unclickable_site start _ r2] r1 r2
       failing_site_tolerated unclickable_site_tolerated
  show ?thesis by blast
qed

section \<open>Further properties\<close>

lemma tbt_reduce_nonneg: "0 \<le> tbt_reduce ts"
  unfolding tbt_reduce_sum by (induction ts) simp_all

lemma tbt_reduce_mono:
  "list_all2 (\<lambda>a b. duration a \<le> duration b) ts ts' \<Longrightarrow> tbt_reduce ts \<le> tbt_reduce ts'"
  unfolding tbt_reduce_sum by (induction rule: list_all2_induct) auto

text \<open>
  X1. Total Blocking Time is never negative, and it does not decrease when the durations
  of the long tasks increase.
\<close>

theorem tbt_nonnegative_and_monotone:
  "0 \<le> tbt_reduce ts
   \<and> (list_all2 (\<lambda>a b. duration a \<le> duration b) ts ts' \<longrightarrow> tbt_reduce ts \<le> tbt_reduce ts')"
  by (simp add: tbt_reduce_nonneg tbt_reduce_mono)

theorem tbt_nonnegative_and_monotone_witness:
  "list_all2 (\<lambda>a b. duration a \<le> duration b)
     [\<lparr>duration = 40, startTime = 0\<rparr>, \<lparr>duration = 120, startTime = 500\<rparr>]
     [\<lparr>duration = 60, startTime = 0\<rparr>, \<lparr>duration = 120, startTime = 500\<rparr>]
   \<and> tbt_reduce [\<lparr>duration = 40, startTime = 0\<rparr>, \<lparr>duration = 120, startTime = 500\<rparr>] = 70
   \<and> tbt_reduce [\<lparr>duration = 60, startTime = 0\<rparr>, \<lparr>duration = 120, startTime = 500\<rparr>] = 80
   \<and> tbt_reduce [\<lparr>duration = 40, startTime = 0\<rparr>, \<lparr>duration = 120, startTime = 500\<rparr>]
       \<le> tbt_reduce [\<lparr>duration = 60, startTime = 0\<rparr>, \<lparr>duration = 120, startTime = 500\<rparr>]"
  using tbt_nonnegative_and_monotone
    [of "[\<lparr>duration = 40, startTime = 0\<rparr>, \<lparr>duration = 120, startTime = 500\<rparr>]"
        "[\<lparr>duration = 60, startTime = 0\<rparr>, \<lparr>duration = 120, startTime = 500\<rparr>]"]
  by (simp add: tbt_reduce_def)

text \<open>
  X2. typeIfExists signals a missing element and every error by the value \<^verbatim>\<open>false\<close>: in no
  environment and from no state does it reject.
\<close>

theorem typeIfExists_never_rejects:
  "(\<exists>typed. fst (typeIfExists E selector val w) = Inr typed)
   \<and> fst (typeIfExists (E\<lparr>handles := \<lambda>h sel. None\<rparr>) selector val w) = Inr False
   \<and> fst (typeIfExists (E\<lparr>rejects := \<lambda>h c. Some e\<rparr>) selector val w) = Inr False"
proof (intro conjI)
  show "\<exists>typed. fst (typeIfExists E selector val w) = Inr typed"
    by (rule typeIfExists_returns)
  show "fst (typeIfExists (E\<lparr>handles := \<lambda>h sel. None\<rparr>) selector val w) = Inr False"
    by (rule typeIfExists_missing_element) simp
  show "fst (typeIfExists (E\<lparr>rejects := \<lambda>h c. Some e\<rparr>) selector val w) = Inr False"
    unfolding typeIfExists_def
    by (simp add: catch_def bind_def request_apply return_def)
qed

lemma store_front_fields:
  "rejects store_front h c = None"
  "takes store_front h c = 0"
  "nodes store_front h sel =
     (if sel = ''a'' then
          [\<lparr>node_id = 11, textContent = Some ''Enter the Store'', node_value = None\<rparr>,
           \<lparr>node_id = 12, textContent = Some ''  Sign In '', node_value = None\<rparr>,
           \<lparr>node_id = 13, textContent = Some ''sign in here'', node_value = None\<rparr>]
        else [])"
  by (simp_all add: store_front_def bare_site_def)

lemma text_matches_examples:
  "\<not> text_matches \<lparr>node_id = i, textContent = Some ''Enter the Store'', node_value = v\<rparr> ''Sign In''"
  "text_matches \<lparr>node_id = i, textContent = Some ''  Sign In '', node_value = v\<rparr> ''Sign In''"
  by (simp_all add: text_matches_def toLowerCase_def trim_def lower_char_def is_space_def)

text \<open>
  X3. clickByText clicks the first node, in selector order and then document order, whose
  trimmed text contains the wanted text without regard to case, and returns \<^verbatim>\<open>true\<close>; when
  no node of any selector matches it clicks nothing and returns \<^verbatim>\<open>false\<close>.
\<close>

theorem clickByText_clicks_first_match:
  "clickByText store_front ''a,button'' ''Sign In'' start
     = (Inr True,
        \<lparr>history = [\<lparr>call = Evaluate (ClickByText ''a,button'' ''Sign In''), started = 0, finished = 0\<rparr>,
                    \<lparr>call = QuerySelectorAll ''a'', started = 0, finished = 0\<rparr>,
                    \<lparr>call = NodeClick 12, started = 0, finished = 0\<rparr>],
         clock = 0\<rparr>)
   \<and> fst (clickByText store_front ''button'' ''Sign In'' start) = Inr False
   \<and> map call (history (snd (clickByText store_front ''button'' ''Sign In'' start)))
       = [Evaluate (ClickByText ''button'' ''Sign In''), QuerySelectorAll ''button'']"
  by (simp add: clickByText_def evaluate_def perform_def bind_def return_def request_apply
        querySelectorAll_def duration_of_def start_def store_front_fields text_matches_examples)

text \<open>
  X4. With \<^verbatim>\<open>reload\<close> set, each trace transaction of either script first navigates to
  \<^verbatim>\<open>about:blank\<close> and then starts the trace, whether or not that navigation succeeded;
  without it, the trace is started at once.
\<close>

theorem transaction_resets_to_blank_first:
  "map call (appended w (snd (before_action E \<lparr>reload = True, autoStop = a\<rparr> w)))
     = [Goto AboutBlank, TracingStart categories]
   \<and> map call (appended w (snd (before_action E \<lparr>reload = False, autoStop = a\<rparr> w)))
     = [TracingStart categories]
   \<and> map call (appended w (snd (before_action_enhanced E \<lparr>reload = True, autoStop = a\<rparr> w)))
     = [Goto AboutBlank, TracingStart categories_enhanced]
   \<and> map call (appended w (snd (before_action_enhanced E \<lparr>reload = False, autoStop = a\<rparr> w)))
     = [TracingStart categories_enhanced]"
  by (simp add: before_action_def before_action_enhanced_def appended_def bind_def catch_def
        perform_def request_apply return_def split: option.splits)

end
